theory Spec2Isabelle
  imports Main "HOL-Library.Signed_Division"
begin

section \<open>Library functions the name server calls\<close>

text \<open>
  A Go \<^verbatim>\<open>string\<close> is a sequence of bytes, as \<^typ>\<open>string\<close> is here. The functions of
  this section stand for the functions of Go's standard library that \<^verbatim>\<open>cache.go\<close> and
  \<^verbatim>\<open>nameserver.go\<close> call: \<^verbatim>\<open>strings.TrimSuffix\<close>, \<^verbatim>\<open>strings.Split\<close> (with a separator of
  one byte), \<^verbatim>\<open>strconv.Atoi\<close>, \<^verbatim>\<open>strings.ToLower\<close> and the two regular expressions.
\<close>

definition HasSuffix :: "string \<Rightarrow> string \<Rightarrow> bool" where
  "HasSuffix s suffix \<longleftrightarrow>
     length suffix \<le> length s \<and> drop (length s - length suffix) s = suffix"

definition TrimSuffix :: "string \<Rightarrow> string \<Rightarrow> string" where
  "TrimSuffix s suffix =
     (if HasSuffix s suffix then take (length s - length suffix) s else s)"

fun Split :: "string \<Rightarrow> char \<Rightarrow> string list" where
  "Split [] sep = [[]]"
| "Split (c # cs) sep =
     (if c = sep then [] # Split cs sep
      else (case Split cs sep of [] \<Rightarrow> [[c]] | p # ps \<Rightarrow> (c # p) # ps))"

definition isDigit :: "char \<Rightarrow> bool" where
  "isDigit c \<longleftrightarrow> 48 \<le> (of_char c :: nat) \<and> (of_char c :: nat) \<le> 57"

definition digits_value :: "string \<Rightarrow> int" where
  "digits_value ds = foldl (\<lambda>n c. n * 10 + (int (of_char c) - 48)) 0 ds"

text \<open>
  \<^verbatim>\<open>strconv.Atoi\<close>: an optional sign, then one or more decimal digits; anything else is a
  syntax error, and a value outside the 64-bit \<^verbatim>\<open>int\<close> is a range error. Both errors are
  \<^const>\<open>None\<close>: the caller only tests \<^verbatim>\<open>err == nil\<close>.
\<close>

definition Atoi :: "string \<Rightarrow> int option" where
  "Atoi s =
     (case s of
        [] \<Rightarrow> None
      | c # cs \<Rightarrow>
          (let neg = (c = CHR ''-'');
               ds = (if c = CHR ''-'' \<or> c = CHR ''+'' then cs else s)
           in if ds = [] \<or> \<not> list_all isDigit ds then None
              else (let n = (if neg then - digits_value ds else digits_value ds)
                    in if n < - (2 ^ 63) \<or> 2 ^ 63 - 1 < n then None else Some n)))"

definition isASCII :: "char \<Rightarrow> bool" where
  "isASCII c \<longleftrightarrow> (of_char c :: nat) < 128"

definition isUpper :: "char \<Rightarrow> bool" where
  "isUpper c \<longleftrightarrow> 65 \<le> (of_char c :: nat) \<and> (of_char c :: nat) \<le> 90"

definition asciiLower :: "char \<Rightarrow> char" where
  "asciiLower c = (if isUpper c then char_of ((of_char c :: nat) + 32) else c)"

text \<open>
  What the name server needs of the libraries whose code is not in the repository:
  \<^item> \<^verbatim>\<open>unicodeLower\<close> is \<^verbatim>\<open>strings.ToLower\<close> on a string with a byte outside ASCII, where
    Go decodes UTF-8 and maps every rune through the case tables of its \<^verbatim>\<open>unicode\<close>
    package;
  \<^item> \<^verbatim>\<open>ParseIP\<close> is \<^verbatim>\<open>net.ParseIP\<close>, which gives nil for a text that is no address.
\<close>

text \<open>A \<^verbatim>\<open>net.IP\<close> is a slice of bytes; where one is optional, \<^const>\<open>None\<close> is the nil slice.\<close>

type_synonym IP = "nat list"

record library =
  unicodeLower :: "string \<Rightarrow> string"
  ParseIP :: "string \<Rightarrow> IP option"

text \<open>\<^verbatim>\<open>strings.ToLower\<close>: on an ASCII string, the letters A to Z become a to z.\<close>

definition ToLower :: "library \<Rightarrow> string \<Rightarrow> string" where
  "ToLower lib s = (if list_all isASCII s then map asciiLower s else unicodeLower lib s)"

text \<open>
  The character class \<^verbatim>\<open>[\w-]\<close> of both regular expressions: in Go's syntax \<^verbatim>\<open>\w\<close> is
  \<^verbatim>\<open>[0-9A-Za-z_]\<close>, ASCII only. A rune outside ASCII is encoded by bytes from 128 on,
  none of which is in the class, so a run of runes outside the class is a run of bytes
  outside the class.
\<close>

definition isWord :: "char \<Rightarrow> bool" where
  "isWord c \<longleftrightarrow>
     (let n = (of_char c :: nat)
      in (48 \<le> n \<and> n \<le> 57) \<or> (65 \<le> n \<and> n \<le> 90) \<or> (97 \<le> n \<and> n \<le> 122) \<or> n = 95)"

definition sane :: "char \<Rightarrow> bool" where
  "sane c \<longleftrightarrow> isWord c \<or> c = CHR ''-''"

text \<open>\<^verbatim>\<open>SANE_DNS_NAME.MatchString\<close>, the expression \<^verbatim>\<open>^[\w-]+$\<close>.\<close>

definition SANE_DNS_NAME :: "string \<Rightarrow> bool" where
  "SANE_DNS_NAME s \<longleftrightarrow> s \<noteq> [] \<and> list_all sane s"

text \<open>
  \<^verbatim>\<open>SANE_DNS_REPL.ReplaceAllString\<close>, the expression \<^verbatim>\<open>[^\w-]+\<close>: every match, a longest
  run of characters outside the class, is replaced by \<^verbatim>\<open>repl\<close>.
\<close>

function SANE_DNS_REPL :: "string \<Rightarrow> string \<Rightarrow> string" where
  "SANE_DNS_REPL [] repl = []"
| "SANE_DNS_REPL (c # cs) repl =
     (if sane c then c # SANE_DNS_REPL cs repl
      else repl @ SANE_DNS_REPL (dropWhile (\<lambda>d. \<not> sane d) cs) repl)"
  by pat_completeness auto
termination
  by (relation "measure (\<lambda>(s, repl). length s)")
     (auto simp: less_Suc_eq_le length_dropWhile_le)

section \<open>Data model (cache.go)\<close>

datatype LookupTag = LOOKUP_NAME | LOOKUP_ROLE

type_synonym Key = "LookupTag \<times> string"

text \<open>
  A \<^verbatim>\<open>time.Time\<close> is an instant, counted in nanoseconds from Go's zero \<^verbatim>\<open>Time\<close>
  (January 1, year 1, 00:00:00 UTC), which is the value of a field never assigned.
\<close>

type_synonym Time = int

record Record =
  CName :: string
  PublicIP :: "IP option"
  PrivateIP :: "IP option"
  ValidUntil :: Time

record AWSAccount =
  NickName :: string
  Arn :: string
  Region :: string

text \<open>
  The cache; its mutex is not modelled. \<^verbatim>\<open>records\<close> is a Go map from keys to slices of
  record pointers. No record is written after it is created, so the pointers are
  modelled by the records themselves.
\<close>

record Cache =
  awsAccount :: AWSAccount
  records :: "Key \<rightharpoonup> Record list"
  domain :: string

text \<open>Reading a Go map at a missing key gives the zero value, the nil slice.\<close>

definition Cache_Lookup :: "Cache \<Rightarrow> LookupTag \<Rightarrow> string \<Rightarrow> Record list" where
  "Cache_Lookup cache tag v =
     (case records cache (tag, v) of None \<Rightarrow> [] | Some rs \<Rightarrow> rs)"

definition Size :: "Cache \<Rightarrow> nat" where
  "Size cache = card (dom (records cache))"

section \<open>Refreshing a cache (cache.go)\<close>

definition sanitize :: "library \<Rightarrow> string \<Rightarrow> string" where
  "sanitize lib tag =
     (let out = ToLower lib tag
      in if SANE_DNS_NAME out then out else SANE_DNS_REPL out ''-'')"

text \<open>The constant \<^verbatim>\<open>TTL\<close>, one minute, and \<^verbatim>\<open>time.Second\<close>, in nanoseconds.\<close>

definition Second :: int where
  "Second = 1000000000"

definition TTL :: int where
  "TTL = 60 * Second"

text \<open>\<^verbatim>\<open>Record{}\<close>: every field has its zero value.\<close>

definition zero_Record :: Record where
  "zero_Record = \<lparr>CName = '''', PublicIP = None, PrivateIP = None, ValidUntil = 0\<rparr>"

text \<open>\<^verbatim>\<open>records[k] = append(records[k], &record)\<close>\<close>

definition append_at :: "(Key \<rightharpoonup> Record list) \<Rightarrow> Key \<Rightarrow> Record \<Rightarrow> (Key \<rightharpoonup> Record list)" where
  "append_at recs k r = recs(k \<mapsto> (case recs k of None \<Rightarrow> [] | Some rs \<Rightarrow> rs) @ [r])"

text \<open>
  The replies of the AWS SDK, with the fields the code reads. The code dereferences
  \<^verbatim>\<open>DBInstanceIdentifier\<close>, \<^verbatim>\<open>Endpoint.Address\<close>, \<^verbatim>\<open>InstanceId\<close> and the key and value of
  a tag without a test, so they are present here; \<^verbatim>\<open>PrivateIpAddress\<close> is tested
  against nil.
\<close>

record DBInstance =
  DBInstanceIdentifier :: string
  Endpoint_Address :: string

record Tag =
  Key :: string
  Value :: string

record Instance =
  InstanceId :: string
  PrivateIpAddress :: "string option"
  Tags :: "Tag list"

record Reservation =
  Instances :: "Instance list"

fun createDatabaseRecords_loop ::
  "library \<Rightarrow> DBInstance list \<Rightarrow> (Key \<rightharpoonup> Record list) \<Rightarrow> (Key \<rightharpoonup> Record list)" where
  "createDatabaseRecords_loop lib [] recs = recs"
| "createDatabaseRecords_loop lib (r # rest) recs =
     createDatabaseRecords_loop lib rest
       (if Endpoint_Address r \<noteq> '''' then
          append_at recs (LOOKUP_NAME, sanitize lib (DBInstanceIdentifier r))
            (zero_Record\<lparr>CName := Endpoint_Address r @ ''.''\<rparr>)
        else recs)"

definition createDatabaseRecords ::
  "library \<Rightarrow> string \<Rightarrow> DBInstance list \<Rightarrow> (Key \<rightharpoonup> Record list)" where
  "createDatabaseRecords lib dname databaseResult =
     createDatabaseRecords_loop lib databaseResult Map.empty"

fun tags_loop ::
  "library \<Rightarrow> Record \<Rightarrow> Tag list \<Rightarrow> (Key \<rightharpoonup> Record list) \<Rightarrow> (Key \<rightharpoonup> Record list)" where
  "tags_loop lib record [] recs = recs"
| "tags_loop lib record (tag # rest) recs =
     (let recs1 = (if Key tag = ''Name''
                   then append_at recs (LOOKUP_NAME, sanitize lib (Value tag)) record
                   else recs);
          recs2 = (if Key tag = ''Role''
                   then append_at recs1 (LOOKUP_ROLE, sanitize lib (Value tag)) record
                   else recs1)
      in tags_loop lib record rest recs2)"

text \<open>
  The record of one instance in \<^verbatim>\<open>createInstanceRecords\<close>. \<^verbatim>\<open>now\<close> is the reading of
  \<^verbatim>\<open>time.Now()\<close>; the readings for the instances of one reply are taken as one instant.
\<close>

definition instance_record :: "library \<Rightarrow> Time \<Rightarrow> Instance \<Rightarrow> Record" where
  "instance_record lib now inst =
     (let record = zero_Record\<lparr>ValidUntil := now + TTL\<rparr>
      in case PrivateIpAddress inst of
           Some a \<Rightarrow> record\<lparr>PrivateIP := ParseIP lib a\<rparr>
         | None \<Rightarrow> record)"

fun instances_loop ::
  "library \<Rightarrow> Time \<Rightarrow> Instance list \<Rightarrow> (Key \<rightharpoonup> Record list) \<Rightarrow> (Key \<rightharpoonup> Record list)" where
  "instances_loop lib now [] recs = recs"
| "instances_loop lib now (inst # rest) recs =
     (let record = instance_record lib now inst
      in instances_loop lib now rest
           (tags_loop lib record (Tags inst)
              (append_at recs (LOOKUP_NAME, InstanceId inst) record)))"

fun reservations_loop ::
  "library \<Rightarrow> Time \<Rightarrow> Reservation list \<Rightarrow> (Key \<rightharpoonup> Record list) \<Rightarrow> (Key \<rightharpoonup> Record list)" where
  "reservations_loop lib now [] recs = recs"
| "reservations_loop lib now (res # rest) recs =
     reservations_loop lib now rest (instances_loop lib now (Instances res) recs)"

definition createInstanceRecords ::
  "library \<Rightarrow> Time \<Rightarrow> string \<Rightarrow> Reservation list \<Rightarrow> (Key \<rightharpoonup> Record list)" where
  "createInstanceRecords lib now dname instancesResult =
     reservations_loop lib now instancesResult Map.empty"

text \<open>
  What AWS answers during one call of \<^verbatim>\<open>refresh\<close>: the error, if any, of
  \<^verbatim>\<open>session.NewSession\<close>, of \<^verbatim>\<open>AssumeRole\<close> and of the second \<^verbatim>\<open>session.NewSession\<close>
  with the temporary credentials, the replies of \<^verbatim>\<open>DescribeDBInstances\<close> and
  \<^verbatim>\<open>DescribeInstances\<close>, and the clock. A Go \<^verbatim>\<open>error\<close> is modelled by its message.
\<close>

record aws =
  NewSession :: "string option"
  AssumeRole :: "string option"
  NewSessionCredentials :: "string option"
  Databases :: "string + DBInstance list"
  DescribeInstances :: "string + Reservation list"
  Now :: Time

definition setRecords :: "Cache \<Rightarrow> (Key \<rightharpoonup> Record list) \<Rightarrow> Cache" where
  "setRecords cache recs = cache\<lparr>records := recs\<rparr>"

text \<open>
  \<^verbatim>\<open>for k, v := range m { records[k] = v }\<close>: every key of \<^verbatim>\<open>m\<close> is assigned, whatever
  \<^verbatim>\<open>records\<close> held there; the order of the iteration does not matter.
\<close>

definition assign_all ::
  "(Key \<rightharpoonup> Record list) \<Rightarrow> (Key \<rightharpoonup> Record list) \<Rightarrow> (Key \<rightharpoonup> Record list)" where
  "assign_all recs m = recs ++ m"

text \<open>
  \<^verbatim>\<open>Cache.refresh\<close> changes the cache in place and returns an error or nil: the model
  returns the cache after the call and the error. The log lines are not modelled.
\<close>

definition refresh :: "library \<Rightarrow> Cache \<Rightarrow> aws \<Rightarrow> Cache \<times> string option" where
  "refresh lib cache w =
     (case NewSession w of
        Some err \<Rightarrow> (cache, Some err)
      | None \<Rightarrow>
          (case (if Arn (awsAccount cache) \<noteq> ''''
                 then (case AssumeRole w of
                         Some err \<Rightarrow> Some err
                       | None \<Rightarrow> NewSessionCredentials w)
                 else None) of
             Some err \<Rightarrow> (cache, Some err)
           | None \<Rightarrow>
               (case Databases w of
                  Inl err \<Rightarrow> (cache, Some err)
                | Inr databaseResult \<Rightarrow>
                    (let recs1 = assign_all Map.empty
                                   (createDatabaseRecords lib (domain cache) databaseResult)
                     in case DescribeInstances w of
                          Inl err \<Rightarrow> (cache, Some err)
                        | Inr instancesResult \<Rightarrow>
                            (let recs2 = assign_all recs1
                                           (createInstanceRecords lib (Now w) (domain cache)
                                              instancesResult)
                             in (setRecords cache recs2, None))))))"

text \<open>
  The body of the goroutine that \<^verbatim>\<open>NewCaches\<close> starts for every cache: at every tick
  of 15 seconds, \<^verbatim>\<open>refresh\<close>, and a log line if it failed. \<^verbatim>\<open>ticks\<close> runs the loop over
  the replies of AWS at the successive ticks.
\<close>

definition tick :: "library \<Rightarrow> Cache \<times> string list \<Rightarrow> aws \<Rightarrow> Cache \<times> string list" where
  "tick lib st w =
     (case refresh lib (fst st) w of
        (cache', Some err) \<Rightarrow> (cache', snd st @ [''ERROR: '' @ err])
      | (cache', None) \<Rightarrow> (cache', snd st))"

fun ticks :: "library \<Rightarrow> Cache \<times> string list \<Rightarrow> aws list \<Rightarrow> Cache \<times> string list" where
  "ticks lib st [] = st"
| "ticks lib st (w # ws) = ticks lib (tick lib st w) ws"

text \<open>
  \<^verbatim>\<open>NewCaches\<close>. \<^verbatim>\<open>world n\<close> is what AWS answers to the first refresh of the cache
  number \<^verbatim>\<open>n\<close>, counted from 0 in the order the caches are made.
\<close>

fun NewCaches_loop ::
  "library \<Rightarrow> (nat \<Rightarrow> aws) \<Rightarrow> string \<Rightarrow> AWSAccount list \<Rightarrow> Cache list \<Rightarrow> nat
     \<Rightarrow> string + (Cache list \<times> nat)" where
  "NewCaches_loop lib world dname [] cs recordCount = Inr (cs, recordCount)"
| "NewCaches_loop lib world dname (account # rest) cs recordCount =
     (case refresh lib \<lparr>awsAccount = account, records = Map.empty, domain = dname\<rparr>
             (world (length cs)) of
        (subAccountCache, Some err) \<Rightarrow> Inl err
      | (subAccountCache, None) \<Rightarrow>
          NewCaches_loop lib world dname rest (cs @ [subAccountCache])
            (recordCount + Size subAccountCache))"

definition main_account :: AWSAccount where
  "main_account = \<lparr>NickName = ''main'', Arn = '''', Region = ''us-east-1''\<rparr>"

definition NewCaches ::
  "library \<Rightarrow> (nat \<Rightarrow> aws) \<Rightarrow> AWSAccount list \<Rightarrow> string \<Rightarrow> string + (Cache list \<times> nat)" where
  "NewCaches lib world accounts dname =
     (case NewCaches_loop lib world dname accounts [] 0 of
        Inl err \<Rightarrow> Inl err
      | Inr (cs, recordCount) \<Rightarrow>
          (case refresh lib \<lparr>awsAccount = main_account, records = Map.empty, domain = dname\<rparr>
                  (world (length cs)) of
             (instanceAccountCache, Some err) \<Rightarrow> Inl err
           | (instanceAccountCache, None) \<Rightarrow>
               Inr (cs @ [instanceAccountCache], recordCount + Size instanceAccountCache)))"

text \<open>
  What \<^verbatim>\<open>main\<close> does with the result of \<^verbatim>\<open>NewCaches\<close>: an error ends the process in
  \<^verbatim>\<open>log.Fatalf\<close>, otherwise the server is made from the caches.
\<close>

datatype process = Fatal string | Serving "Cache list" nat

definition main_startup ::
  "library \<Rightarrow> (nat \<Rightarrow> aws) \<Rightarrow> AWSAccount list \<Rightarrow> string \<Rightarrow> process" where
  "main_startup lib world accounts dname =
     (case NewCaches lib world accounts dname of
        Inl err \<Rightarrow> Fatal (''FATAL: '' @ err)
      | Inr (cs, recordCount) \<Rightarrow> Serving cs recordCount)"

section \<open>The name resolver (nameserver.go)\<close>

text \<open>
  The server. Its field \<^verbatim>\<open>domain\<close> is \<^verbatim>\<open>ns_domain\<close> here, since the cache has a field
  of that name. The \<^verbatim>\<open>Qtype\<close> of a question is a 16-bit number, compared for equality
  only.
\<close>

record NameServer =
  ns_domain :: string
  hostname :: string
  caches :: "Cache list"

record Question =
  Name :: string
  Qtype :: nat

text \<open>\<^verbatim>\<open>NewNameServer\<close>; the handler it registers with the DNS library is not modelled.\<close>

definition NewNameServer :: "string \<Rightarrow> string \<Rightarrow> Cache list \<Rightarrow> NameServer" where
  "NewNameServer dname host cs =
     \<lparr>ns_domain = (if HasSuffix dname ''.'' then dname else dname @ ''.''),
      hostname = (if HasSuffix host ''.'' then host else host @ ''.''),
      caches = cs\<rparr>"

text \<open>A runtime panic of the Go program: slicing \<^verbatim>\<open>results[nth : nth+1]\<close> out of bounds.\<close>

datatype panic = SliceBoundsOutOfRange int

text \<open>
  The two nested loops of \<^verbatim>\<open>Lookup\<close> (lines 139 to 146): every cache in turn, and every
  record of the cache's answer in turn, appended to \<^verbatim>\<open>results\<close>.
\<close>

fun append_records :: "Record list \<Rightarrow> Record list \<Rightarrow> Record list" where
  "append_records results [] = results"
| "append_records results (r # rs) = append_records (results @ [r]) rs"

fun collect :: "Cache list \<Rightarrow> LookupTag \<Rightarrow> string \<Rightarrow> Record list \<Rightarrow> Record list" where
  "collect [] tag v results = results"
| "collect (c # cs) tag v results =
     collect cs tag v (append_records results (Cache_Lookup c tag v))"

text \<open>
  \<^verbatim>\<open>NameServer.Lookup\<close>. \<^verbatim>\<open>parts0\<close> is \<^verbatim>\<open>parts\<close> as \<^verbatim>\<open>strings.Split\<close> returns it and
  \<^verbatim>\<open>parts\<close> is its value after the first \<^verbatim>\<open>if\<close>, which cuts a last label \<^verbatim>\<open>role\<close> off.
  \<^verbatim>\<open>hostNick\<close> is set to \<^verbatim>\<open>parts[0:]\<close> before that \<^verbatim>\<open>if\<close>, so it keeps all the labels,
  and is only set again, to \<^verbatim>\<open>parts[1:]\<close>, when \<^verbatim>\<open>Atoi\<close> reads the first label as an
  integer (\<^verbatim>\<open>idx\<close>). A name that is badly formed gives nil, the empty slice. The slice
  \<^verbatim>\<open>results[nth : nth+1]\<close> is reached with \<^verbatim>\<open>nth < len(results)\<close>; Go panics there when
  \<^verbatim>\<open>nth\<close> is negative.
\<close>

definition Lookup :: "NameServer \<Rightarrow> Question \<Rightarrow> panic + Record list" where
  "Lookup s msg =
     (let parts0 = Split (TrimSuffix (Name msg) (''.'' @ ns_domain s)) (CHR ''.'');
          is_role = (length parts0 > 1 \<and> last parts0 = ''role'');
          tag = (if is_role then LOOKUP_ROLE else LOOKUP_NAME);
          parts = (if is_role then butlast parts0 else parts0);
          idx = (if length parts > 1 then Atoi (hd parts) else None);
          nth = (case idx of Some i \<Rightarrow> i | None \<Rightarrow> 0);
          hostNick = (case idx of Some i \<Rightarrow> tl parts | None \<Rightarrow> parts0)
      in if length hostNick \<noteq> 1 \<or> hd hostNick = '''' then Inr []
         else (let results = collect (caches s) tag (hd hostNick) []
               in if length parts > 1 then
                    (if nth \<ge> int (length results) then Inr []
                     else if nth < 0 then Inl (SliceBoundsOutOfRange nth)
                     else Inr [results ! nat nth])
                  else Inr results))"

section \<open>Answers (nameserver.go, cache.go)\<close>

text \<open>
  \<^verbatim>\<open>Time.After\<close> and \<^verbatim>\<open>Time.Sub\<close>. A \<^verbatim>\<open>time.Duration\<close> is a signed 64-bit count of
  nanoseconds, and \<^verbatim>\<open>Sub\<close> gives the largest or the smallest duration when the
  difference does not fit.
\<close>

definition After :: "Time \<Rightarrow> Time \<Rightarrow> bool" where
  "After t u \<longleftrightarrow> u < t"

definition maxDuration :: int where
  "maxDuration = 2 ^ 63 - 1"

definition minDuration :: int where
  "minDuration = - (2 ^ 63)"

definition Sub :: "Time \<Rightarrow> Time \<Rightarrow> int" where
  "Sub t u =
     (let d = t - u
      in if maxDuration < d then maxDuration else if d < minDuration then minDuration else d)"

definition Record_TTL :: "Record \<Rightarrow> Time \<Rightarrow> int" where
  "Record_TTL record now =
     (if After now (ValidUntil record) then 10 * Second else Sub (ValidUntil record) now)"

text \<open>The conversion \<^verbatim>\<open>uint32(x)\<close> of a 64-bit integer keeps the low 32 bits.\<close>

definition uint32 :: "int \<Rightarrow> int" where
  "uint32 x = x mod 2 ^ 32"

text \<open>The records of a DNS reply, with the types of \<^verbatim>\<open>github.com/miekg/dns\<close>.\<close>

definition TypeA :: nat where
  "TypeA = 1"

definition TypeNS :: nat where
  "TypeNS = 2"

definition TypeCNAME :: nat where
  "TypeCNAME = 5"

definition TypeSOA :: nat where
  "TypeSOA = 6"

definition ClassINET :: nat where
  "ClassINET = 1"

record RR_Header =
  hdr_Name :: string
  Rrtype :: nat
  Class :: nat
  Ttl :: int

record SOA_data =
  soa_Ns :: string
  Mbox :: string
  Serial :: int
  Refresh :: int
  Retry :: int
  Expire :: int
  Minttl :: int

datatype RR =
    NS RR_Header string
  | CNAME RR_Header string
  | A RR_Header "IP option"
  | SOA RR_Header SOA_data

text \<open>The method \<^verbatim>\<open>Header\<close> of a \<^verbatim>\<open>dns.RR\<close>.\<close>

fun Header :: "RR \<Rightarrow> RR_Header" where
  "Header (NS h ns) = h"
| "Header (CNAME h target) = h"
| "Header (A h a) = h"
| "Header (SOA h d) = h"

text \<open>\<^verbatim>\<open>Time.Unix\<close>: seconds since 1970, which is 62135596800 seconds after the zero time.\<close>

definition Unix :: "Time \<Rightarrow> int" where
  "Unix t = t div Second - 62135596800"

definition NameServer_SOA :: "NameServer \<Rightarrow> Time \<Rightarrow> Question \<Rightarrow> RR" where
  "NameServer_SOA s now msg =
     SOA \<lparr>hdr_Name = ns_domain s, Rrtype = TypeSOA, Class = ClassINET, Ttl = 60\<rparr>
         \<lparr>soa_Ns = hostname s, Mbox = ''hostmaster.'', Serial = uint32 (Unix now),
          Refresh = 86400, Retry = 7200, Expire = 86400, Minttl = 60\<rparr>"

text \<open>
  The body of the loop of \<^verbatim>\<open>Answer\<close> over the records of \<^verbatim>\<open>Lookup\<close>: the TTL of one
  record, and the answers that the record adds. \<^verbatim>\<open>now\<close> is the reading of \<^verbatim>\<open>time.Now()\<close>;
  the readings during one call of \<^verbatim>\<open>Answer\<close> are taken as one instant. Go's division of
  integers truncates towards zero.
\<close>

definition answer_ttl :: "Record \<Rightarrow> Time \<Rightarrow> int" where
  "answer_ttl record now = uint32 (Record_TTL record now sdiv Second)"

definition record_answers :: "Question \<Rightarrow> Time \<Rightarrow> Record \<Rightarrow> RR list" where
  "record_answers msg now record =
     (let ttl = answer_ttl record now
      in if Qtype msg = TypeA then
           (if CName record \<noteq> '''' then
              [CNAME \<lparr>hdr_Name = Name msg, Rrtype = TypeCNAME, Class = ClassINET, Ttl = ttl\<rparr>
                 (CName record)]
            else
              [A \<lparr>hdr_Name = Name msg, Rrtype = TypeA, Class = ClassINET, Ttl = ttl\<rparr>
                 (PrivateIP record)])
         else [])"

fun Answer_loop :: "Question \<Rightarrow> Time \<Rightarrow> Record list \<Rightarrow> RR list \<Rightarrow> RR list" where
  "Answer_loop msg now [] answers = answers"
| "Answer_loop msg now (record # rest) answers =
     Answer_loop msg now rest (answers @ record_answers msg now record)"

definition Answer :: "NameServer \<Rightarrow> Time \<Rightarrow> Question \<Rightarrow> panic + RR list" where
  "Answer s now msg =
     (if Qtype msg = TypeNS then
        Inr (if Name msg = ns_domain s
             then [NS \<lparr>hdr_Name = Name msg, Rrtype = TypeNS, Class = ClassINET, Ttl = 300\<rparr>
                     (hostname s)]
             else [])
      else if Qtype msg = TypeSOA then
        Inr (if Name msg = ns_domain s then [NameServer_SOA s now msg] else [])
      else (case Lookup s msg of
              Inl p \<Rightarrow> Inl p
            | Inr rs \<Rightarrow> Inr (Answer_loop msg now rs [])))"

section \<open>Properties of a map of records\<close>

text \<open>Every record stored in the map, under any key, satisfies \<^verbatim>\<open>P\<close>.\<close>

definition every_record :: "(Record \<Rightarrow> bool) \<Rightarrow> (Key \<rightharpoonup> Record list) \<Rightarrow> bool" where
  "every_record P recs \<longleftrightarrow> (\<forall>k rs r. recs k = Some rs \<longrightarrow> r \<in> set rs \<longrightarrow> P r)"

section \<open>A configuration to run the definitions on\<close>

text \<open>
  One configured account, \<^verbatim>\<open>prod\<close>, and the account of the machine itself. Both have a
  database \<^verbatim>\<open>db\<close>; in the second, a database and an instance share the name \<^verbatim>\<open>web\<close>,
  and one instance has no private address. \<^verbatim>\<open>refresh_time\<close> is the first instant of
  2026, when both caches are filled.
\<close>

definition IPv4 :: "nat \<Rightarrow> nat \<Rightarrow> nat \<Rightarrow> nat \<Rightarrow> IP" where
  "IPv4 a b c d = [0, 0, 0, 0, 0, 0, 0, 0, 0, 0, 255, 255, a, b, c, d]"

definition example_library :: library where
  "example_library =
     \<lparr>unicodeLower = map asciiLower,
      ParseIP = (\<lambda>s. if s = ''10.0.0.1'' then Some (IPv4 10 0 0 1)
                     else if s = ''10.0.0.2'' then Some (IPv4 10 0 0 2)
                     else None)\<rparr>"

definition refresh_time :: Time where
  "refresh_time = 63902822400 * Second"

definition prod_account :: AWSAccount where
  "prod_account =
     \<lparr>NickName = ''prod'', Arn = ''arn:aws:iam::123456789012:role/AWSNameServer'',
      Region = ''us-east-1''\<rparr>"

definition prod_databases :: "DBInstance list" where
  "prod_databases =
     [\<lparr>DBInstanceIdentifier = ''db'', Endpoint_Address = ''db.prod.rds.amazonaws.com''\<rparr>]"

definition prod_reservations :: "Reservation list" where
  "prod_reservations =
     [\<lparr>Instances =
        [\<lparr>InstanceId = ''i-0a'', PrivateIpAddress = Some ''10.0.0.1'',
          Tags = [\<lparr>Key = ''Name'', Value = ''Front End''\<rparr>,
                  \<lparr>Key = ''Role'', Value = ''api''\<rparr>]\<rparr>]\<rparr>]"

definition prod_reply :: aws where
  "prod_reply =
     \<lparr>NewSession = None, AssumeRole = None, NewSessionCredentials = None,
      Databases = Inr prod_databases, DescribeInstances = Inr prod_reservations,
      Now = refresh_time\<rparr>"

definition main_databases :: "DBInstance list" where
  "main_databases =
     [\<lparr>DBInstanceIdentifier = ''db'', Endpoint_Address = ''db.main.rds.amazonaws.com''\<rparr>,
      \<lparr>DBInstanceIdentifier = ''Web'', Endpoint_Address = ''web.main.rds.amazonaws.com''\<rparr>]"

definition main_reservations :: "Reservation list" where
  "main_reservations =
     [\<lparr>Instances =
        [\<lparr>InstanceId = ''i-0b'', PrivateIpAddress = Some ''10.0.0.2'',
          Tags = [\<lparr>Key = ''Name'', Value = ''web''\<rparr>,
                  \<lparr>Key = ''Role'', Value = ''api''\<rparr>]\<rparr>,
         \<lparr>InstanceId = ''i-0c'', PrivateIpAddress = None, Tags = []\<rparr>]\<rparr>]"

definition main_reply :: aws where
  "main_reply =
     \<lparr>NewSession = None, AssumeRole = None, NewSessionCredentials = None,
      Databases = Inr main_databases, DescribeInstances = Inr main_reservations,
      Now = refresh_time\<rparr>"

text \<open>A reply in which \<^verbatim>\<open>DescribeDBInstances\<close> fails.\<close>

definition failing_reply :: aws where
  "failing_reply = main_reply\<lparr>Databases := Inl ''RequestError: send request failed''\<rparr>"

definition example_world :: "nat \<Rightarrow> aws" where
  "example_world n = (if n = 0 then prod_reply else main_reply)"

text \<open>A cache as \<^verbatim>\<open>NewCaches\<close> makes it, before its first refresh.\<close>

definition new_cache :: "AWSAccount \<Rightarrow> string \<Rightarrow> Cache" where
  "new_cache account dname = \<lparr>awsAccount = account, records = Map.empty, domain = dname\<rparr>"

definition prod_cache :: Cache where
  "prod_cache =
     fst (refresh example_library (new_cache prod_account ''aws.example.com'') prod_reply)"

definition main_cache :: Cache where
  "main_cache =
     fst (refresh example_library (new_cache main_account ''aws.example.com'') main_reply)"

definition example_server :: NameServer where
  "example_server = NewNameServer ''aws.example.com'' ''ns.example.com'' [prod_cache, main_cache]"

text \<open>The records of the three instances and of the three databases.\<close>

definition rec_0a :: Record where
  "rec_0a = \<lparr>CName = '''', PublicIP = None, PrivateIP = Some (IPv4 10 0 0 1),
             ValidUntil = refresh_time + TTL\<rparr>"

definition rec_0b :: Record where
  "rec_0b = \<lparr>CName = '''', PublicIP = None, PrivateIP = Some (IPv4 10 0 0 2),
             ValidUntil = refresh_time + TTL\<rparr>"

definition rec_0c :: Record where
  "rec_0c = \<lparr>CName = '''', PublicIP = None, PrivateIP = None,
             ValidUntil = refresh_time + TTL\<rparr>"

definition rec_db_prod :: Record where
  "rec_db_prod = \<lparr>CName = ''db.prod.rds.amazonaws.com.'', PublicIP = None, PrivateIP = None,
                  ValidUntil = 0\<rparr>"

definition rec_db_main :: Record where
  "rec_db_main = \<lparr>CName = ''db.main.rds.amazonaws.com.'', PublicIP = None, PrivateIP = None,
                  ValidUntil = 0\<rparr>"

definition rec_web_main :: Record where
  "rec_web_main = \<lparr>CName = ''web.main.rds.amazonaws.com.'', PublicIP = None, PrivateIP = None,
                   ValidUntil = 0\<rparr>"

section \<open>Facts about the library functions and the loops\<close>

lemma append_records_eq: "append_records results rs = results @ rs"
  by (induction rs arbitrary: results) simp_all

lemma collect_eq:
  "collect cs tag v results = results @ concat (map (\<lambda>c. Cache_Lookup c tag v) cs)"
  by (induction cs arbitrary: results) (simp_all add: append_records_eq)

lemma TrimSuffix_append: "TrimSuffix (a @ b) b = a"
  by (simp add: TrimSuffix_def HasSuffix_def)

lemma Split_at_sep: "sep \<notin> set a \<Longrightarrow> Split (a @ sep # b) sep = a # Split b sep"
  by (induction a) auto

text \<open>
  \<^verbatim>\<open>Lookup\<close> on a name whose labels before the domain are an integer, a label and
  perhaps \<^verbatim>\<open>role\<close>: the three outcomes of the last \<^verbatim>\<open>if\<close>.
\<close>

lemma Lookup_indexed:
  assumes parts:
      "Split (TrimSuffix (Name msg) (''.'' @ ns_domain s)) (CHR ''.'') = istr # label # suffix"
    and suffix: "suffix = [] \<and> label \<noteq> ''role'' \<or> suffix = [''role'']"
    and label: "label \<noteq> ''''"
    and idx: "Atoi istr = Some n"
  shows "Lookup s msg =
     (let results = concat (map (\<lambda>c. Cache_Lookup c
                        (if suffix = [] then LOOKUP_NAME else LOOKUP_ROLE) label) (caches s))
      in if n \<ge> int (length results) then Inr []
         else if n < 0 then Inl (SliceBoundsOutOfRange n)
         else Inr [results ! nat n])"
  using suffix
proof
  assume "suffix = [] \<and> label \<noteq> ''role''"
  then show ?thesis
    using parts by (simp add: Lookup_def idx label collect_eq Let_def)
next
  assume "suffix = [''role'']"
  then show ?thesis
    using parts by (simp add: Lookup_def idx label collect_eq Let_def)
qed

lemma Split_no_sep: "sep \<notin> set a \<Longrightarrow> Split a sep = [a]"
  by (induction a) auto

lemma Lookup_plain:
  assumes "CHR ''.'' \<notin> set label" and "label \<noteq> ''''"
  shows "Lookup s \<lparr>Name = label @ ''.'' @ ns_domain s, Qtype = q\<rparr>
     = Inr (concat (map (\<lambda>c. Cache_Lookup c LOOKUP_NAME label) (caches s)))"
proof -
  have "Split (TrimSuffix (label @ ''.'' @ ns_domain s) (''.'' @ ns_domain s)) (CHR ''.'')
      = [label]"
    unfolding TrimSuffix_append using assms(1) by (simp add: Split_no_sep)
  then show ?thesis
    using assms(2) by (simp add: Lookup_def collect_eq)
qed

section \<open>The caches of the example\<close>

lemma sanitize_examples:
  "sanitize example_library ''Front End'' = ''front-end''"
  "sanitize example_library ''Web'' = ''web''"
  "sanitize example_library ''web'' = ''web''"
  "sanitize example_library ''api'' = ''api''"
  "sanitize example_library ''db'' = ''db''"
  by code_simp+

lemma ParseIP_examples:
  "ParseIP example_library ''10.0.0.1'' = Some (IPv4 10 0 0 1)"
  "ParseIP example_library ''10.0.0.2'' = Some (IPv4 10 0 0 2)"
  by (simp_all add: example_library_def)

lemmas refresh_defs =
  refresh_def setRecords_def assign_all_def createDatabaseRecords_def
  createInstanceRecords_def append_at_def instance_record_def zero_Record_def Let_def

lemma prod_cache_records:
  "records prod_cache =
     [(LOOKUP_NAME, ''db'') \<mapsto> [rec_db_prod], (LOOKUP_NAME, ''i-0a'') \<mapsto> [rec_0a],
      (LOOKUP_NAME, ''front-end'') \<mapsto> [rec_0a], (LOOKUP_ROLE, ''api'') \<mapsto> [rec_0a]]"
  by (simp add: prod_cache_def new_cache_def prod_reply_def prod_databases_def
      prod_reservations_def prod_account_def refresh_defs sanitize_examples ParseIP_examples rec_db_prod_def rec_0a_def)

lemma main_cache_records:
  "records main_cache =
     [(LOOKUP_NAME, ''db'') \<mapsto> [rec_db_main], (LOOKUP_NAME, ''web'') \<mapsto> [rec_0b],
      (LOOKUP_NAME, ''i-0b'') \<mapsto> [rec_0b], (LOOKUP_ROLE, ''api'') \<mapsto> [rec_0b],
      (LOOKUP_NAME, ''i-0c'') \<mapsto> [rec_0c]]"
proof (rule ext)
  fix k
  show "records main_cache k =
     [(LOOKUP_NAME, ''db'') \<mapsto> [rec_db_main], (LOOKUP_NAME, ''web'') \<mapsto> [rec_0b],
      (LOOKUP_NAME, ''i-0b'') \<mapsto> [rec_0b], (LOOKUP_ROLE, ''api'') \<mapsto> [rec_0b],
      (LOOKUP_NAME, ''i-0c'') \<mapsto> [rec_0c]] k"
    by (simp add: main_cache_def new_cache_def main_reply_def main_databases_def
        main_reservations_def main_account_def refresh_defs sanitize_examples ParseIP_examples rec_db_main_def rec_0b_def rec_0c_def)
qed

lemma example_server_fields:
  "ns_domain example_server = ''aws.example.com.''"
  "hostname example_server = ''ns.example.com.''"
  "caches example_server = [prod_cache, main_cache]"
  by (simp_all add: example_server_def NewNameServer_def HasSuffix_def)

lemma example_role_api:
  "concat (map (\<lambda>c. Cache_Lookup c LOOKUP_ROLE ''api'') (caches example_server))
     = [rec_0a, rec_0b]"
  by (simp add: example_server_fields Cache_Lookup_def prod_cache_records main_cache_records)

lemma example_name_web:
  "concat (map (\<lambda>c. Cache_Lookup c LOOKUP_NAME ''web'') (caches example_server)) = [rec_0b]"
  by (simp add: example_server_fields Cache_Lookup_def prod_cache_records main_cache_records)

lemma Atoi_examples:
  "Atoi ''1'' = Some 1" "Atoi ''2'' = Some 2" "Atoi ''-1'' = Some (- 1)"
  by (simp_all add: Atoi_def isDigit_def digits_value_def)

section \<open>The claims about the name resolver\<close>

text \<open>
  C1. The specification: a name \<^verbatim>\<open><label>.role.<domain>\<close> with no index is looked up as a role,
  and \<^verbatim>\<open>Lookup\<close> returns all the records of the role. The code does not: for every such
  name (a label without a dot, then \<^verbatim>\<open>role\<close>, then the domain) \<^verbatim>\<open>Lookup\<close> returns no
  record at all, whatever the caches hold. \<^verbatim>\<open>hostNick\<close> still holds both labels when its
  length is tested, because it was set before \<^verbatim>\<open>role\<close> was cut off.
\<close>

theorem role_without_index_is_empty:
  assumes "CHR ''.'' \<notin> set label"
  shows "Lookup s \<lparr>Name = label @ ''.role.'' @ ns_domain s, Qtype = q\<rparr> = Inr []"
proof -
  have name: "label @ ''.role.'' @ ns_domain s = (label @ ''.role'') @ (''.'' @ ns_domain s)"
    by simp
  have parts:
    "Split (TrimSuffix (label @ ''.role.'' @ ns_domain s) (''.'' @ ns_domain s)) (CHR ''.'')
       = [label, ''role'']"
    unfolding name TrimSuffix_append using assms by (simp add: Split_at_sep)
  show ?thesis
    using parts by (simp add: Lookup_def)
qed

text \<open>
  On the example, \<^verbatim>\<open>api.role.aws.example.com.\<close> gets no record, though the two caches
  hold one record each for the role \<^verbatim>\<open>api\<close>.
\<close>

theorem role_without_index_is_empty_witness:
  "Lookup example_server \<lparr>Name = ''api.role.aws.example.com.'', Qtype = TypeA\<rparr> = Inr []
   \<and> collect (caches example_server) LOOKUP_ROLE ''api'' [] = [rec_0a, rec_0b]"
proof -
  have "CHR ''.'' \<notin> set ''api''"
    by simp
  from role_without_index_is_empty [OF this, of example_server TypeA]
  have "Lookup example_server \<lparr>Name = ''api.role.aws.example.com.'', Qtype = TypeA\<rparr> = Inr []"
    by (simp add: example_server_fields)
  then show ?thesis
    by (simp add: collect_eq example_role_api)
qed

text \<open>
  C4. When an index \<^verbatim>\<open>n\<close> was read from the name (the first label is an integer that is
  not negative, the next one the label, then perhaps \<^verbatim>\<open>role\<close>): \<^verbatim>\<open>Lookup\<close> returns no
  record if \<^verbatim>\<open>n\<close> is not a position of the list of all records of the key, and otherwise
  the one record at position \<^verbatim>\<open>n\<close>, counted from 0. The list is the records of the
  caches one after the other, in the order of the caches, each in the order it is stored.
\<close>

theorem indexed_lookup_returns_nth:
  assumes "Split (TrimSuffix (Name msg) (''.'' @ ns_domain s)) (CHR ''.'') = istr # label # suffix"
    and "suffix = [] \<and> label \<noteq> ''role'' \<and> tag = LOOKUP_NAME
         \<or> suffix = [''role''] \<and> tag = LOOKUP_ROLE"
    and "label \<noteq> ''''"
    and "Atoi istr = Some n"
    and "0 \<le> n"
  shows "Lookup s msg =
     (let results = concat (map (\<lambda>c. Cache_Lookup c tag label) (caches s))
      in if length results \<le> nat n then Inr [] else Inr [results ! nat n])"
proof -
  have tag: "tag = (if suffix = [] then LOOKUP_NAME else LOOKUP_ROLE)"
    using assms(2) by auto
  have "suffix = [] \<and> label \<noteq> ''role'' \<or> suffix = [''role'']"
    using assms(2) by auto
  from Lookup_indexed [OF assms(1) this assms(3) assms(4)] show ?thesis
    using \<open>0 \<le> n\<close> unfolding tag by (auto simp: Let_def)
qed

theorem indexed_lookup_returns_nth_witness:
  "Lookup example_server \<lparr>Name = ''1.api.role.aws.example.com.'', Qtype = TypeA\<rparr> = Inr [rec_0b]
   \<and> Lookup example_server \<lparr>Name = ''2.api.role.aws.example.com.'', Qtype = TypeA\<rparr> = Inr []"
proof -
  let ?q1 = "\<lparr>Name = ''1.api.role.aws.example.com.'', Qtype = TypeA\<rparr>"
  let ?q2 = "\<lparr>Name = ''2.api.role.aws.example.com.'', Qtype = TypeA\<rparr>"
  have p1: "Split (TrimSuffix (Name ?q1) (''.'' @ ns_domain example_server)) (CHR ''.'')
      = ''1'' # ''api'' # [''role'']"
    by (simp add: example_server_fields TrimSuffix_def HasSuffix_def)
  have p2: "Split (TrimSuffix (Name ?q2) (''.'' @ ns_domain example_server)) (CHR ''.'')
      = ''2'' # ''api'' # [''role'']"
    by (simp add: example_server_fields TrimSuffix_def HasSuffix_def)
  have l1: "Lookup example_server ?q1 = Inr [rec_0b]"
    using indexed_lookup_returns_nth [OF p1 _ _ Atoi_examples(1), of LOOKUP_ROLE]
    by (simp add: example_role_api)
  have l2: "Lookup example_server ?q2 = Inr []"
    using indexed_lookup_returns_nth [OF p2 _ _ Atoi_examples(2), of LOOKUP_ROLE]
    by (simp add: example_role_api)
  from l1 l2 show ?thesis
    by simp
qed

text \<open>
  C5. The specification: a first label that is a negative integer is not an index, the name is
  badly formed and the result is empty, never a runtime error. The code does not:
  \<^verbatim>\<open>Atoi\<close> accepts the negative integer \<^verbatim>\<open>n\<close>, which passes the only test,
  \<^verbatim>\<open>nth >= len(results)\<close>, and the slice \<^verbatim>\<open>results[nth : nth+1]\<close> panics.
\<close>

theorem negative_index_panics:
  assumes "Split (TrimSuffix (Name msg) (''.'' @ ns_domain s)) (CHR ''.'') = istr # label # suffix"
    and "suffix = [] \<and> label \<noteq> ''role'' \<or> suffix = [''role'']"
    and "label \<noteq> ''''"
    and "Atoi istr = Some n"
    and "n < 0"
  shows "Lookup s msg = Inl (SliceBoundsOutOfRange n)"
  using Lookup_indexed [OF assms(1-4)] \<open>n < 0\<close>
  by (simp add: Let_def)

theorem negative_index_panics_witness:
  "Lookup example_server \<lparr>Name = ''-1.web.aws.example.com.'', Qtype = TypeA\<rparr>
     = Inl (SliceBoundsOutOfRange (- 1))"
proof -
  let ?q = "\<lparr>Name = ''-1.web.aws.example.com.'', Qtype = TypeA\<rparr>"
  have p: "Split (TrimSuffix (Name ?q) (''.'' @ ns_domain example_server)) (CHR ''.'')
      = ''-1'' # ''web'' # []"
    by (simp add: example_server_fields TrimSuffix_def HasSuffix_def)
  show ?thesis
    using negative_index_panics [OF p _ _ Atoi_examples(3)]
    by simp
qed

section \<open>Facts about refresh and the start of the process\<close>

lemma refresh_failed:
  assumes "refresh lib cache w = (cache', Some err)"
  shows "cache' = cache"
  using assms
  by (auto simp: refresh_def Let_def split: option.splits sum.splits if_splits)

lemma refresh_failed_step:
  assumes "refresh lib cache w = (cache', Some err)"
  shows "NewSession w = Some err
       \<or> NewSession w = None \<and> Arn (awsAccount cache) \<noteq> '''' \<and> AssumeRole w = Some err
       \<or> NewSession w = None \<and> Arn (awsAccount cache) \<noteq> '''' \<and> AssumeRole w = None
           \<and> NewSessionCredentials w = Some err
       \<or> Databases w = Inl err
       \<or> DescribeInstances w = Inl err"
  using assms
  by (auto simp: refresh_def Let_def split: option.splits sum.splits if_splits)

lemma refresh_succeeded:
  assumes "refresh lib cache w = (cache', None)"
  shows "\<exists>dbs res. Databases w = Inr dbs \<and> DescribeInstances w = Inr res
           \<and> cache' = cache\<lparr>records := createDatabaseRecords lib (domain cache) dbs
                                ++ createInstanceRecords lib (Now w) (domain cache) res\<rparr>"
  using assms
  by (auto simp: refresh_def Let_def setRecords_def assign_all_def
      split: option.splits sum.splits if_splits)

lemma refresh_awsAccount:
  "awsAccount (fst (refresh lib cache w)) = awsAccount cache"
  by (auto simp: refresh_def Let_def setRecords_def split: option.splits sum.splits if_splits)

lemma NewCaches_loop_accounts:
  "NewCaches_loop lib world d accounts cs n = Inr (cs', n')
     \<Longrightarrow> map awsAccount cs' = map awsAccount cs @ accounts"
proof (induction accounts arbitrary: cs n)
  case Nil
  then show ?case by simp
next
  case (Cons a accounts)
  let ?c = "\<lparr>awsAccount = a, records = Map.empty, domain = d\<rparr>"
  obtain c' e where r: "refresh lib ?c (world (length cs)) = (c', e)"
    by (cases "refresh lib ?c (world (length cs))") auto
  with Cons.prems have e: "e = None"
    by (cases e) auto
  have acc: "awsAccount c' = a"
    using refresh_awsAccount [of lib ?c "world (length cs)"] r by simp
  from Cons.prems r e
  have "NewCaches_loop lib world d accounts (cs @ [c']) (n + Size c') = Inr (cs', n')"
    by simp
  from Cons.IH [OF this] acc show ?case
    by simp
qed

lemma NewCaches_accounts:
  assumes "NewCaches lib world accounts d = Inr (cs, n)"
  shows "map awsAccount cs = accounts @ [main_account]"
proof -
  from assms obtain cs0 n0 where
    loop: "NewCaches_loop lib world d accounts [] 0 = Inr (cs0, n0)"
    by (auto simp: NewCaches_def split: sum.splits)
  let ?c = "\<lparr>awsAccount = main_account, records = Map.empty, domain = d\<rparr>"
  obtain c' e where r: "refresh lib ?c (world (length cs0)) = (c', e)"
    by (cases "refresh lib ?c (world (length cs0))") auto
  from assms loop r have cs: "cs = cs0 @ [c']"
    by (auto simp: NewCaches_def split: option.splits)
  have "awsAccount c' = main_account"
    using refresh_awsAccount [of lib ?c "world (length cs0)"] r by simp
  with NewCaches_loop_accounts [OF loop] cs show ?thesis
    by simp
qed

lemma NewCaches_loop_Inl:
  assumes "i < length accounts"
    and "\<forall>j<i. snd (refresh lib \<lparr>awsAccount = accounts ! j, records = Map.empty, domain = d\<rparr>
                      (world (length cs + j))) = None"
    and "snd (refresh lib \<lparr>awsAccount = accounts ! i, records = Map.empty, domain = d\<rparr>
                (world (length cs + i))) = Some err"
  shows "NewCaches_loop lib world d accounts cs n = Inl err"
  using assms
proof (induction accounts arbitrary: i cs n)
  case Nil
  then show ?case by simp
next
  case (Cons a accounts)
  show ?case
  proof (cases i)
    case 0
    with Cons.prems(3) show ?thesis
      by (auto split: prod.splits)
  next
    case (Suc i')
    let ?c = "\<lparr>awsAccount = a, records = Map.empty, domain = d\<rparr>"
    obtain c' where r: "refresh lib ?c (world (length cs)) = (c', None)"
      using Cons.prems(2) Suc by (cases "refresh lib ?c (world (length cs))") force
    have 1: "i' < length accounts"
      using Cons.prems(1) Suc by simp
    have 2: "\<forall>j<i'. snd (refresh lib \<lparr>awsAccount = accounts ! j, records = Map.empty, domain = d\<rparr>
                      (world (length (cs @ [c']) + j))) = None"
      using Cons.prems(2) Suc by force
    have 3: "snd (refresh lib \<lparr>awsAccount = accounts ! i', records = Map.empty, domain = d\<rparr>
                (world (length (cs @ [c']) + i'))) = Some err"
      using Cons.prems(3) Suc by simp
    from Cons.IH [OF 1 2 3] r show ?thesis
      by simp
  qed
qed

lemma NewCaches_loop_Inr:
  assumes "\<forall>j<length accounts.
             snd (refresh lib \<lparr>awsAccount = accounts ! j, records = Map.empty, domain = d\<rparr>
                    (world (length cs + j))) = None"
  shows "\<exists>cs' n'. NewCaches_loop lib world d accounts cs n = Inr (cs', n')
           \<and> length cs' = length cs + length accounts"
  using assms
proof (induction accounts arbitrary: cs n)
  case Nil
  then show ?case by simp
next
  case (Cons a accounts)
  let ?c = "\<lparr>awsAccount = a, records = Map.empty, domain = d\<rparr>"
  obtain c' where r: "refresh lib ?c (world (length cs)) = (c', None)"
    using Cons.prems by (cases "refresh lib ?c (world (length cs))") force
  have "\<forall>j<length accounts.
          snd (refresh lib \<lparr>awsAccount = accounts ! j, records = Map.empty, domain = d\<rparr>
                 (world (length (cs @ [c']) + j))) = None"
    using Cons.prems by force
  from Cons.IH [OF this, of "n + Size c'"] r show ?case
    by auto
qed

lemma failed_first_refresh_exits:
  assumes i: "i \<le> length accounts"
    and before: "\<forall>j<i. snd (refresh lib \<lparr>awsAccount = (accounts @ [main_account]) ! j,
                               records = Map.empty, domain = d\<rparr> (world j)) = None"
    and fails: "refresh lib \<lparr>awsAccount = (accounts @ [main_account]) ! i,
                   records = Map.empty, domain = d\<rparr> (world i) = (c, Some err)"
  shows "main_startup lib world accounts d = Fatal (''FATAL: '' @ err)"
proof (cases "i < length accounts")
  case True
  have "\<forall>j<i. snd (refresh lib \<lparr>awsAccount = accounts ! j, records = Map.empty, domain = d\<rparr>
                      (world (length ([] :: Cache list) + j))) = None"
    using before True by (simp add: nth_append)
  moreover have "snd (refresh lib \<lparr>awsAccount = accounts ! i, records = Map.empty, domain = d\<rparr>
                (world (length ([] :: Cache list) + i))) = Some err"
    using fails True by (simp add: nth_append)
  ultimately have "NewCaches_loop lib world d accounts [] 0 = Inl err"
    by (rule NewCaches_loop_Inl [OF True])
  then show ?thesis
    by (simp add: main_startup_def NewCaches_def)
next
  case False
  with i have eq: "i = length accounts"
    by simp
  have "\<forall>j<length accounts.
          snd (refresh lib \<lparr>awsAccount = accounts ! j, records = Map.empty, domain = d\<rparr>
                 (world (length ([] :: Cache list) + j))) = None"
    using before eq by (simp add: nth_append)
  from NewCaches_loop_Inr [OF this, of 0] obtain cs' n' where
    loop: "NewCaches_loop lib world d accounts [] 0 = Inr (cs', n')"
    and len: "length cs' = length accounts"
    by auto
  from fails eq have "refresh lib \<lparr>awsAccount = main_account, records = Map.empty, domain = d\<rparr>
      (world (length cs')) = (c, Some err)"
    by (simp add: len)
  with loop show ?thesis
    by (simp add: main_startup_def NewCaches_def)
qed

lemma example_refreshes:
  "refresh example_library (new_cache prod_account ''aws.example.com'') prod_reply
     = (prod_cache, None)"
  "refresh example_library (new_cache main_account ''aws.example.com'') main_reply
     = (main_cache, None)"
  unfolding prod_cache_def main_cache_def
  by (simp_all add: refresh_def prod_reply_def main_reply_def prod_account_def main_account_def
      new_cache_def Let_def)

lemma example_sizes: "Size prod_cache = 4" "Size main_cache = 5"
  by (simp_all add: Size_def prod_cache_records main_cache_records)

lemma example_NewCaches:
  "NewCaches example_library example_world [prod_account] ''aws.example.com''
     = Inr ([prod_cache, main_cache], 9)"
  using example_refreshes
  by (simp add: NewCaches_def example_world_def new_cache_def example_sizes)

lemma example_name_db:
  "concat (map (\<lambda>c. Cache_Lookup c LOOKUP_NAME ''db'') [prod_cache, main_cache])
     = [rec_db_prod, rec_db_main]"
  by (simp add: Cache_Lookup_def prod_cache_records main_cache_records)

lemma failing_refresh:
  "refresh example_library c failing_reply = (c, Some ''RequestError: send request failed'')"
  by (simp add: refresh_def failing_reply_def main_reply_def)

section \<open>The claims about the caches\<close>

text \<open>
  C6. \<^verbatim>\<open>NewCaches\<close> makes one cache for every configured account, in the order of the
  configuration, and the cache of the account \<^verbatim>\<open>main\<close> last. For every key, the list
  that \<^verbatim>\<open>Lookup\<close> collects is the records of the first cache in their stored order,
  then those of the second, and so on; it is what a name with one label returns.
\<close>

theorem aggregation_follows_configuration:
  assumes "NewCaches lib world accounts d = Inr (cs, recordCount)"
  shows "map awsAccount cs = accounts @ [main_account]
       \<and> (\<forall>tag v. collect cs tag v [] = concat (map (\<lambda>c. Cache_Lookup c tag v) cs))
       \<and> (\<forall>label host q. CHR ''.'' \<notin> set label \<and> label \<noteq> '''' \<longrightarrow>
            Lookup (NewNameServer d host cs)
                   \<lparr>Name = label @ ''.'' @ ns_domain (NewNameServer d host cs), Qtype = q\<rparr>
              = Inr (concat (map (\<lambda>c. Cache_Lookup c LOOKUP_NAME label) cs)))"
proof (intro conjI allI impI)
  show "map awsAccount cs = accounts @ [main_account]"
    by (rule NewCaches_accounts [OF assms])
next
  fix tag v
  show "collect cs tag v [] = concat (map (\<lambda>c. Cache_Lookup c tag v) cs)"
    by (simp add: collect_eq)
next
  fix label host q
  assume "CHR ''.'' \<notin> set label \<and> label \<noteq> ''''"
  then have "Lookup (NewNameServer d host cs)
       \<lparr>Name = label @ ''.'' @ ns_domain (NewNameServer d host cs), Qtype = q\<rparr>
     = Inr (concat (map (\<lambda>c. Cache_Lookup c LOOKUP_NAME label) (caches (NewNameServer d host cs))))"
    by (intro Lookup_plain) simp_all
  then show "Lookup (NewNameServer d host cs)
       \<lparr>Name = label @ ''.'' @ ns_domain (NewNameServer d host cs), Qtype = q\<rparr>
     = Inr (concat (map (\<lambda>c. Cache_Lookup c LOOKUP_NAME label) cs))"
    by (simp add: NewNameServer_def)
qed

theorem aggregation_follows_configuration_witness:
  "NewCaches example_library example_world [prod_account] ''aws.example.com''
     = Inr ([prod_cache, main_cache], 9)
   \<and> map awsAccount [prod_cache, main_cache] = [prod_account, main_account]
   \<and> collect [prod_cache, main_cache] LOOKUP_NAME ''db'' [] = [rec_db_prod, rec_db_main]
   \<and> Lookup example_server \<lparr>Name = ''db.aws.example.com.'', Qtype = TypeA\<rparr>
       = Inr [rec_db_prod, rec_db_main]"
proof -
  note t = aggregation_follows_configuration [OF example_NewCaches]
  from t have a: "map awsAccount [prod_cache, main_cache] = [prod_account, main_account]"
    by simp
  from t have "collect [prod_cache, main_cache] LOOKUP_NAME ''db'' []
      = concat (map (\<lambda>c. Cache_Lookup c LOOKUP_NAME ''db'') [prod_cache, main_cache])"
    by blast
  then have b: "collect [prod_cache, main_cache] LOOKUP_NAME ''db'' [] = [rec_db_prod, rec_db_main]"
    by (simp only: example_name_db)
  from t have "CHR ''.'' \<notin> set ''db'' \<and> ''db'' \<noteq> '''' \<longrightarrow>
      Lookup (NewNameServer ''aws.example.com'' ''ns.example.com'' [prod_cache, main_cache])
        \<lparr>Name = ''db'' @ ''.'' @ ns_domain (NewNameServer ''aws.example.com'' ''ns.example.com''
                  [prod_cache, main_cache]), Qtype = TypeA\<rparr>
      = Inr (concat (map (\<lambda>c. Cache_Lookup c LOOKUP_NAME ''db'') [prod_cache, main_cache]))"
    by blast
  then have c: "Lookup example_server \<lparr>Name = ''db.aws.example.com.'', Qtype = TypeA\<rparr>
       = Inr [rec_db_prod, rec_db_main]"
    unfolding example_name_db
    by (simp add: example_server_def NewNameServer_def HasSuffix_def)
  from example_NewCaches a b c show ?thesis
    by simp
qed

text \<open>
  C2, as amended. A \<^verbatim>\<open>refresh\<close> that fails, at the session, at the role (for an account
  with an ARN), at the databases or at the instances, returns the error and leaves the
  cache as it was: \<^verbatim>\<open>Lookup\<close> and \<^verbatim>\<open>Size\<close> give what they gave before. In the loop
  of the goroutine the error is logged and the loop goes on with the next tick. The
  first refresh of a cache is called by \<^verbatim>\<open>NewCaches\<close>, which returns its error to
  \<^verbatim>\<open>main\<close>, and \<^verbatim>\<open>main\<close> ends the process.
\<close>

theorem failed_refresh_keeps_snapshot:
  assumes "refresh lib cache w = (cache', Some err)"
  shows "cache' = cache
       \<and> (\<forall>tag v. Cache_Lookup cache' tag v = Cache_Lookup cache tag v)
       \<and> Size cache' = Size cache
       \<and> (NewSession w = Some err
          \<or> NewSession w = None \<and> Arn (awsAccount cache) \<noteq> '''' \<and> AssumeRole w = Some err
          \<or> NewSession w = None \<and> Arn (awsAccount cache) \<noteq> '''' \<and> AssumeRole w = None
              \<and> NewSessionCredentials w = Some err
          \<or> Databases w = Inl err
          \<or> DescribeInstances w = Inl err)
       \<and> tick lib (cache, log) w = (cache, log @ [''ERROR: '' @ err])
       \<and> ticks lib (cache, log) (w # ws) = ticks lib (cache, log @ [''ERROR: '' @ err]) ws
       \<and> (\<forall>world accounts d i.
            i \<le> length accounts
            \<and> (\<forall>j<i. snd (refresh lib \<lparr>awsAccount = (accounts @ [main_account]) ! j,
                                       records = Map.empty, domain = d\<rparr> (world j)) = None)
            \<and> world i = w
            \<and> cache = \<lparr>awsAccount = (accounts @ [main_account]) ! i,
                        records = Map.empty, domain = d\<rparr>
            \<longrightarrow> main_startup lib world accounts d = Fatal (''FATAL: '' @ err))"
proof -
  have same: "cache' = cache"
    by (rule refresh_failed [OF assms])
  have t: "tick lib (cache, log) w = (cache, log @ [''ERROR: '' @ err])"
    using assms same by (simp add: tick_def)
  have exits: "main_startup lib world accounts d = Fatal (''FATAL: '' @ err)"
    if "i \<le> length accounts"
      and "\<forall>j<i. snd (refresh lib \<lparr>awsAccount = (accounts @ [main_account]) ! j,
                                 records = Map.empty, domain = d\<rparr> (world j)) = None"
      and "world i = w"
      and "cache = \<lparr>awsAccount = (accounts @ [main_account]) ! i,
                    records = Map.empty, domain = d\<rparr>"
    for world :: "nat \<Rightarrow> aws" and accounts d i
  proof -
    have "refresh lib \<lparr>awsAccount = (accounts @ [main_account]) ! i,
              records = Map.empty, domain = d\<rparr> (world i) = (cache', Some err)"
      using assms that(3,4) by metis
    from failed_first_refresh_exits [OF that(1) that(2) this] show ?thesis .
  qed
  have t2: "ticks lib (cache, log) (w # ws) = ticks lib (cache, log @ [''ERROR: '' @ err]) ws"
    by (simp add: t)
  have lookups: "\<forall>tag v. Cache_Lookup cache' tag v = Cache_Lookup cache tag v"
    and size: "Size cache' = Size cache"
    by (simp_all add: same)
  note step = refresh_failed_step [OF assms]
  from exits have exits_all: "\<forall>world accounts d i.
            i \<le> length accounts
            \<and> (\<forall>j<i. snd (refresh lib \<lparr>awsAccount = (accounts @ [main_account]) ! j,
                                       records = Map.empty, domain = d\<rparr> (world j)) = None)
            \<and> world i = w
            \<and> cache = \<lparr>awsAccount = (accounts @ [main_account]) ! i,
                        records = Map.empty, domain = d\<rparr>
            \<longrightarrow> main_startup lib world accounts d = Fatal (''FATAL: '' @ err)"
    by blast
  show ?thesis
    by (intro conjI) (fact same lookups size step t t2 exits_all)+
qed

theorem failed_refresh_keeps_snapshot_witness:
  "refresh example_library main_cache failing_reply
     = (main_cache, Some ''RequestError: send request failed'')
   \<and> Cache_Lookup (fst (refresh example_library main_cache failing_reply)) LOOKUP_NAME ''web''
       = [rec_0b]
   \<and> Size (fst (refresh example_library main_cache failing_reply)) = 5
   \<and> ticks example_library (main_cache, []) [failing_reply, failing_reply]
       = (main_cache, [''ERROR: RequestError: send request failed'',
                       ''ERROR: RequestError: send request failed''])"
proof -
  note t = failed_refresh_keeps_snapshot [OF failing_refresh [of main_cache]]
  have "ticks example_library (main_cache, []) [failing_reply, failing_reply]
      = ticks example_library (main_cache, [''ERROR: RequestError: send request failed''])
          [failing_reply]"
    using t [of "[]" "[failing_reply]"] by simp
  also have "\<dots> = ticks example_library
      (main_cache, [''ERROR: RequestError: send request failed'',
                    ''ERROR: RequestError: send request failed'']) []"
    using t [of "[''ERROR: RequestError: send request failed'']" "[]"] by simp
  finally show ?thesis
    by (simp add: failing_refresh Cache_Lookup_def main_cache_records Size_def)
qed

text \<open>
  The specification says that a failed refresh never ends the process. Here the first refresh
  of the cache of the machine's own account fails, and \<^verbatim>\<open>main\<close> ends in \<^verbatim>\<open>log.Fatalf\<close>.
\<close>

theorem failed_first_refresh_is_fatal:
  "refresh example_library (new_cache main_account ''aws.example.com'') failing_reply
     = (new_cache main_account ''aws.example.com'', Some ''RequestError: send request failed'')
   \<and> main_startup example_library (\<lambda>n. failing_reply) [] ''aws.example.com''
       = Fatal ''FATAL: RequestError: send request failed''"
  by (simp add: failing_refresh main_startup_def NewCaches_def)

section \<open>Facts about the records that a refresh creates\<close>

lemma every_record_empty: "every_record P Map.empty"
  by (simp add: every_record_def)

lemma every_record_append_at:
  assumes "every_record P recs" and "P r"
  shows "every_record P (append_at recs k r)"
  unfolding every_record_def
proof (intro allI impI)
  fix k' rs r'
  assume stored: "append_at recs k r k' = Some rs" and mem: "r' \<in> set rs"
  show "P r'"
  proof (cases "k' = k")
    case False
    with stored have "recs k' = Some rs"
      by (simp add: append_at_def)
    with assms(1) mem show ?thesis
      unfolding every_record_def by blast
  next
    case True
    show ?thesis
    proof (cases "recs k")
      case None
      with stored True have "rs = [r]"
        by (simp add: append_at_def)
      with mem assms(2) show ?thesis
        by simp
    next
      case (Some old)
      with stored True have "rs = old @ [r]"
        by (simp add: append_at_def)
      with mem have "r' \<in> set old \<or> r' = r"
        by auto
      with assms Some show ?thesis
        unfolding every_record_def by blast
    qed
  qed
qed

lemma every_record_map_add:
  assumes "every_record P a" and "every_record P b"
  shows "every_record P (a ++ b)"
  using assms unfolding every_record_def map_add_Some_iff by blast

lemma every_record_database_loop:
  assumes "every_record (\<lambda>r. CName r \<noteq> '''' \<and> ValidUntil r = 0) recs"
  shows "every_record (\<lambda>r. CName r \<noteq> '''' \<and> ValidUntil r = 0)
           (createDatabaseRecords_loop lib dbs recs)"
  using assms
proof (induction dbs arbitrary: recs)
  case Nil
  then show ?case by simp
next
  case (Cons r rest)
  show ?case
  proof (cases "Endpoint_Address r = ''''")
    case True
    with Cons show ?thesis by simp
  next
    case False
    let ?rec = "zero_Record\<lparr>CName := Endpoint_Address r @ ''.''\<rparr>"
    have "CName ?rec \<noteq> '''' \<and> ValidUntil ?rec = 0"
      by (simp add: zero_Record_def)
    with Cons.prems
    have "every_record (\<lambda>r. CName r \<noteq> '''' \<and> ValidUntil r = 0)
            (append_at recs (LOOKUP_NAME, sanitize lib (DBInstanceIdentifier r)) ?rec)"
      by (intro every_record_append_at)
    from Cons.IH [OF this] False show ?thesis
      by simp
  qed
qed

lemma every_record_database:
  "every_record (\<lambda>r. CName r \<noteq> '''' \<and> ValidUntil r = 0) (createDatabaseRecords lib d dbs)"
  unfolding createDatabaseRecords_def
  by (rule every_record_database_loop) (rule every_record_empty)

lemma every_record_tags_loop:
  assumes "every_record P recs" and "P record"
  shows "every_record P (tags_loop lib record tags recs)"
  using assms
  by (induction tags arbitrary: recs) (simp_all add: every_record_append_at Let_def)

lemma instance_record_fields:
  "CName (instance_record lib now inst) = ''''"
  "ValidUntil (instance_record lib now inst) = now + TTL"
  by (simp_all add: instance_record_def zero_Record_def Let_def split: option.splits)

lemma every_record_instances_loop:
  assumes "every_record (\<lambda>r. CName r = '''' \<and> ValidUntil r = now + TTL) recs"
  shows "every_record (\<lambda>r. CName r = '''' \<and> ValidUntil r = now + TTL)
           (instances_loop lib now insts recs)"
  using assms
proof (induction insts arbitrary: recs)
  case Nil
  then show ?case by simp
next
  case (Cons inst rest)
  let ?P = "\<lambda>r. CName r = '''' \<and> ValidUntil r = now + TTL"
  let ?rec = "instance_record lib now inst"
  have p: "?P ?rec"
    by (simp add: instance_record_fields)
  have "every_record ?P (append_at recs (LOOKUP_NAME, InstanceId inst) ?rec)"
    using Cons.prems p by (rule every_record_append_at)
  then have "every_record ?P (tags_loop lib ?rec (Tags inst)
       (append_at recs (LOOKUP_NAME, InstanceId inst) ?rec))"
    using p by (rule every_record_tags_loop)
  from Cons.IH [OF this] show ?case
    by (simp add: Let_def)
qed

lemma every_record_reservations_loop:
  assumes "every_record (\<lambda>r. CName r = '''' \<and> ValidUntil r = now + TTL) recs"
  shows "every_record (\<lambda>r. CName r = '''' \<and> ValidUntil r = now + TTL)
           (reservations_loop lib now ress recs)"
  using assms
  by (induction ress arbitrary: recs) (simp_all add: every_record_instances_loop)

lemma every_record_instances:
  "every_record (\<lambda>r. CName r = '''' \<and> ValidUntil r = now + TTL)
     (createInstanceRecords lib now d ress)"
  unfolding createInstanceRecords_def
  by (rule every_record_reservations_loop) (rule every_record_empty)

lemma every_recordD: "every_record P recs \<Longrightarrow> recs k = Some rs \<Longrightarrow> r \<in> set rs \<Longrightarrow> P r"
  unfolding every_record_def by blast

text \<open>
  C9. In one refresh, the new map gets every entry of the databases first and then
  every entry of the instances, each by an assignment to the whole key. So a key that
  both have (the name of a database that is also the \<^verbatim>\<open>Name\<close> tag or the id of an
  instance) holds the records of the instances only: the records of the databases
  under that key are not in the snapshot. A key that no instance has keeps the records
  of the databases.
\<close>

theorem instance_records_replace_database_records:
  assumes "refresh lib cache w = (cache', None)"
    and "Databases w = Inr dbs"
    and "DescribeInstances w = Inr ress"
    and "createInstanceRecords lib (Now w) (domain cache) ress k = Some irs"
  shows "records cache' = createDatabaseRecords lib (domain cache) dbs
                            ++ createInstanceRecords lib (Now w) (domain cache) ress
       \<and> records cache' k = Some irs
       \<and> Cache_Lookup cache' (fst k) (snd k) = irs
       \<and> (\<forall>r\<in>set irs. CName r = '''')
       \<and> (\<forall>drs. createDatabaseRecords lib (domain cache) dbs k = Some drs
              \<longrightarrow> (\<forall>r\<in>set drs. CName r \<noteq> '''') \<and> set drs \<inter> set irs = {})
       \<and> (\<forall>k'. createInstanceRecords lib (Now w) (domain cache) ress k' = None
              \<longrightarrow> records cache' k' = createDatabaseRecords lib (domain cache) dbs k')"
proof -
  let ?db = "createDatabaseRecords lib (domain cache) dbs"
  let ?inst = "createInstanceRecords lib (Now w) (domain cache) ress"
  from refresh_succeeded [OF assms(1)] assms(2,3)
  have snapshot: "records cache' = ?db ++ ?inst"
    by auto
  have at_k: "records cache' k = Some irs"
    unfolding snapshot using assms(4) by simp
  then have looked_up: "Cache_Lookup cache' (fst k) (snd k) = irs"
    by (simp add: Cache_Lookup_def)
  have inst: "\<forall>r\<in>set irs. CName r = ''''"
    using every_recordD [OF every_record_instances assms(4)] by blast
  have db: "\<forall>drs. ?db k = Some drs \<longrightarrow> (\<forall>r\<in>set drs. CName r \<noteq> '''') \<and> set drs \<inter> set irs = {}"
  proof (intro allI impI)
    fix drs
    assume "?db k = Some drs"
    from every_recordD [OF every_record_database this]
    have "\<forall>r\<in>set drs. CName r \<noteq> ''''"
      by blast
    with inst show "(\<forall>r\<in>set drs. CName r \<noteq> '''') \<and> set drs \<inter> set irs = {}"
      by blast
  qed
  have rest: "\<forall>k'. ?inst k' = None \<longrightarrow> records cache' k' = ?db k'"
    unfolding snapshot by (simp add: map_add_def)
  show ?thesis
    by (intro conjI) (fact snapshot at_k looked_up inst db rest)+
qed

lemma example_collision:
  "createDatabaseRecords example_library ''aws.example.com'' main_databases (LOOKUP_NAME, ''web'')
     = Some [rec_web_main]"
  "createInstanceRecords example_library refresh_time ''aws.example.com'' main_reservations
     (LOOKUP_NAME, ''web'') = Some [rec_0b]"
  by (simp_all add: main_databases_def main_reservations_def refresh_defs
      sanitize_examples ParseIP_examples rec_web_main_def rec_0b_def)

theorem instance_records_replace_database_records_witness:
  "createDatabaseRecords example_library ''aws.example.com'' main_databases (LOOKUP_NAME, ''web'')
     = Some [rec_web_main]
   \<and> createInstanceRecords example_library refresh_time ''aws.example.com'' main_reservations
       (LOOKUP_NAME, ''web'') = Some [rec_0b]
   \<and> Cache_Lookup main_cache LOOKUP_NAME ''web'' = [rec_0b]
   \<and> rec_web_main \<notin> set (Cache_Lookup main_cache LOOKUP_NAME ''web'')"
proof -
  have w: "Databases main_reply = Inr main_databases"
    "DescribeInstances main_reply = Inr main_reservations"
    "Now main_reply = refresh_time"
    by (simp_all add: main_reply_def)
  have d: "domain (new_cache main_account ''aws.example.com'') = ''aws.example.com''"
    by (simp add: new_cache_def)
  have i: "createInstanceRecords example_library (Now main_reply)
      (domain (new_cache main_account ''aws.example.com'')) main_reservations
      (LOOKUP_NAME, ''web'') = Some [rec_0b]"
    unfolding w d by (rule example_collision)
  from instance_records_replace_database_records [OF example_refreshes(2) w(1) w(2) i]
  have l: "Cache_Lookup main_cache LOOKUP_NAME ''web'' = [rec_0b]"
    by simp
  have "rec_web_main \<noteq> rec_0b"
    by (simp add: rec_web_main_def rec_0b_def)
  with l example_collision show ?thesis
    by simp
qed

section \<open>Facts about the TTL and the answers\<close>

lemma sdiv_nonneg: "0 \<le> k \<Longrightarrow> 0 < l \<Longrightarrow> k sdiv l = k div l" for k l :: int
  by (simp add: signed_divide_int_def sgn_if)

lemma answer_ttl_expired:
  assumes "After now (ValidUntil r)"
  shows "answer_ttl r now = 10"
  using assms by (simp add: answer_ttl_def Record_TTL_def Second_def uint32_def sdiv_nonneg)

lemma answer_ttl_general:
  assumes "\<not> After now (ValidUntil r)"
  shows "answer_ttl r now = (min (ValidUntil r - now) maxDuration div Second) mod 2 ^ 32"
proof -
  have d: "0 \<le> ValidUntil r - now"
    using assms by (simp add: After_def)
  then have s: "Sub (ValidUntil r) now = min (ValidUntil r - now) maxDuration"
    by (simp add: Sub_def Let_def minDuration_def maxDuration_def min_def)
  have "0 \<le> min (ValidUntil r - now) maxDuration"
    using d by (simp add: maxDuration_def)
  then show ?thesis
    using assms by (simp add: answer_ttl_def Record_TTL_def s uint32_def sdiv_nonneg Second_def)
qed

lemma answer_ttl_fresh:
  assumes "\<not> After now (ValidUntil r)"
    and "ValidUntil r - now < 2 ^ 32 * Second"
  shows "answer_ttl r now = (ValidUntil r - now) div Second"
    and "0 \<le> answer_ttl r now"
proof -
  have d: "0 \<le> ValidUntil r - now"
    using assms(1) by (simp add: After_def)
  have small: "ValidUntil r - now \<le> maxDuration"
    using assms(2) by (simp add: maxDuration_def Second_def)
  have q: "(ValidUntil r - now) div Second < 2 ^ 32"
    using assms(2) by (simp add: Second_def div_less_iff_less_mult)
  have q0: "0 \<le> (ValidUntil r - now) div Second"
    using d by (simp add: Second_def pos_imp_zdiv_nonneg_iff)
  show "answer_ttl r now = (ValidUntil r - now) div Second"
    using answer_ttl_general [OF assms(1)] small q q0 by (simp add: min_def)
  then show "0 \<le> answer_ttl r now"
    using q0 by simp
qed

lemma record_answers_ttl:
  assumes "rr \<in> set (record_answers msg now r)"
  shows "Ttl (Header rr) = answer_ttl r now"
  using assms by (auto simp: record_answers_def Let_def split: if_splits)

lemma Answer_loop_eq:
  "Answer_loop msg now rs answers = answers @ concat (map (record_answers msg now) rs)"
  by (induction rs arbitrary: answers) simp_all

lemma TypeA_neq: "TypeA \<noteq> TypeNS" "TypeA \<noteq> TypeSOA"
  by (simp_all add: TypeA_def TypeNS_def TypeSOA_def)

lemma example_lookups:
  "Lookup example_server \<lparr>Name = ''db.aws.example.com.'', Qtype = TypeA\<rparr>
     = Inr [rec_db_prod, rec_db_main]"
  "Lookup example_server \<lparr>Name = ''api.aws.example.com.'', Qtype = TypeA\<rparr> = Inr []"
  "Lookup example_server \<lparr>Name = ''i-0c.aws.example.com.'', Qtype = TypeA\<rparr> = Inr [rec_0c]"
  "Lookup example_server \<lparr>Name = ''web.aws.example.com.'', Qtype = TypeA\<rparr> = Inr [rec_0b]"
  using Lookup_plain [of "''db''" example_server TypeA]
    Lookup_plain [of "''api''" example_server TypeA]
    Lookup_plain [of "''i-0c''" example_server TypeA]
    Lookup_plain [of "''web''" example_server TypeA]
  by (simp_all add: example_server_fields Cache_Lookup_def prod_cache_records main_cache_records)

lemma example_ttls:
  "answer_ttl rec_db_prod (refresh_time + 15500000000) = 10"
  "answer_ttl rec_db_main (refresh_time + 15500000000) = 10"
  "answer_ttl rec_0b (refresh_time + 15500000000) = 44"
  "answer_ttl rec_0c (refresh_time + 15500000000) = 44"
  by (simp_all add: answer_ttl_def Record_TTL_def After_def Sub_def maxDuration_def
      minDuration_def uint32_def Second_def TTL_def refresh_time_def sdiv_nonneg Let_def
      rec_db_prod_def rec_db_main_def rec_0b_def rec_0c_def)

lemma example_db_created:
  "createDatabaseRecords example_library ''aws.example.com'' main_databases (LOOKUP_NAME, ''db'')
     = Some [rec_db_main]"
  by (simp add: main_databases_def refresh_defs sanitize_examples rec_db_main_def)

section \<open>The claims about the answers\<close>

text \<open>
  C7, as amended. The TTL of an answer is \<^verbatim>\<open>uint32(record.TTL(now) / time.Second)\<close>.
  If \<^verbatim>\<open>now\<close> is not after \<^verbatim>\<open>ValidUntil\<close> and less than \<^verbatim>\<open>2^32\<close> seconds remain, it is
  the remaining time in whole seconds, rounded down, and not negative. In general the
  remaining time is first cut at the largest \<^verbatim>\<open>Duration\<close> and its seconds are reduced
  modulo \<^verbatim>\<open>2^32\<close>. If \<^verbatim>\<open>now\<close> is after \<^verbatim>\<open>ValidUntil\<close>, however long ago, the TTL is 10.
  Every answer made from the record carries this TTL in its header.
\<close>

theorem advertised_ttl:
  "(\<not> After now (ValidUntil r) \<and> ValidUntil r - now < 2 ^ 32 * Second
      \<longrightarrow> answer_ttl r now = (ValidUntil r - now) div Second
          \<and> 0 \<le> answer_ttl r now)
   \<and> (\<not> After now (ValidUntil r)
      \<longrightarrow> answer_ttl r now
            = (min (ValidUntil r - now) maxDuration div Second) mod 2 ^ 32)
   \<and> (After now (ValidUntil r) \<longrightarrow> answer_ttl r now = 10)
   \<and> (\<forall>msg rr. rr \<in> set (record_answers msg now r)
         \<longrightarrow> Ttl (Header rr) = answer_ttl r now)"
  using answer_ttl_fresh [of now r] answer_ttl_general [of now r]
    answer_ttl_expired [of now r] record_answers_ttl [of _ _ now r]
  by blast

theorem advertised_ttl_witness:
  "answer_ttl rec_0b (refresh_time + 15500000000) = 44
   \<and> answer_ttl rec_0b (refresh_time + 61 * Second) = 10"
proof -
  have fresh: "\<not> After (refresh_time + 15500000000) (ValidUntil rec_0b)
      \<and> ValidUntil rec_0b - (refresh_time + 15500000000) < 2 ^ 32 * Second"
    by (simp add: After_def rec_0b_def TTL_def Second_def)
  have expired: "After (refresh_time + 61 * Second) (ValidUntil rec_0b)"
    by (simp add: After_def rec_0b_def TTL_def Second_def)
  from advertised_ttl [of "refresh_time + 15500000000" rec_0b] fresh
  have "answer_ttl rec_0b (refresh_time + 15500000000)
      = (ValidUntil rec_0b - (refresh_time + 15500000000)) div Second"
    by blast
  then have a: "answer_ttl rec_0b (refresh_time + 15500000000) = 44"
    by (simp add: rec_0b_def TTL_def Second_def)
  from advertised_ttl [of "refresh_time + 61 * Second" rec_0b] expired
  have b: "answer_ttl rec_0b (refresh_time + 61 * Second) = 10"
    by blast
  from a b show ?thesis
    by simp
qed

text \<open>
  The specification says that the TTL is the remaining time for every record. A record that is
  valid for \<^verbatim>\<open>2^32\<close> seconds more is advertised with the TTL 0, not 4294967296.
\<close>

theorem ttl_wraps_at_32_bits:
  "\<not> After refresh_time (ValidUntil (zero_Record\<lparr>ValidUntil := refresh_time + 2 ^ 32 * Second\<rparr>))
   \<and> (ValidUntil (zero_Record\<lparr>ValidUntil := refresh_time + 2 ^ 32 * Second\<rparr>) - refresh_time)
        div Second = 4294967296
   \<and> answer_ttl (zero_Record\<lparr>ValidUntil := refresh_time + 2 ^ 32 * Second\<rparr>) refresh_time = 0"
  by (simp add: After_def answer_ttl_def Record_TTL_def Sub_def maxDuration_def minDuration_def
      uint32_def Second_def zero_Record_def sdiv_nonneg Let_def)

text \<open>
  C3, as amended. For a question of type A, \<^verbatim>\<open>Answer\<close> gives exactly one answer for every
  record that \<^verbatim>\<open>Lookup\<close> returns, in the same order: a CNAME with the record's \<^verbatim>\<open>CName\<close>
  as target when \<^verbatim>\<open>CName\<close> is not empty, and otherwise an A answer with the record's
  \<^verbatim>\<open>PrivateIP\<close>, whether that field is set or nil. No record gives both kinds, and no
  record is skipped.
\<close>

theorem one_answer_per_record:
  assumes "Qtype msg = TypeA"
    and "Lookup s msg = Inr rs"
  shows "Answer s now msg =
     Inr (map (\<lambda>r. if CName r \<noteq> ''''
                    then CNAME \<lparr>hdr_Name = Name msg, Rrtype = TypeCNAME, Class = ClassINET,
                                Ttl = answer_ttl r now\<rparr> (CName r)
                    else A \<lparr>hdr_Name = Name msg, Rrtype = TypeA, Class = ClassINET,
                            Ttl = answer_ttl r now\<rparr> (PrivateIP r)) rs)"
proof -
  have one: "record_answers msg now r =
      [if CName r \<noteq> ''''
       then CNAME \<lparr>hdr_Name = Name msg, Rrtype = TypeCNAME, Class = ClassINET,
                   Ttl = answer_ttl r now\<rparr> (CName r)
       else A \<lparr>hdr_Name = Name msg, Rrtype = TypeA, Class = ClassINET,
               Ttl = answer_ttl r now\<rparr> (PrivateIP r)]" for r
    using assms(1) by (simp add: record_answers_def Let_def)
  have "concat (map (record_answers msg now) rs) =
      map (\<lambda>r. if CName r \<noteq> ''''
                then CNAME \<lparr>hdr_Name = Name msg, Rrtype = TypeCNAME, Class = ClassINET,
                            Ttl = answer_ttl r now\<rparr> (CName r)
                else A \<lparr>hdr_Name = Name msg, Rrtype = TypeA, Class = ClassINET,
                        Ttl = answer_ttl r now\<rparr> (PrivateIP r)) rs"
    by (induction rs) (simp_all add: one)
  then show ?thesis
    using assms TypeA_neq by (simp add: Answer_def Answer_loop_eq)
qed

theorem one_answer_per_record_witness:
  "Answer example_server (refresh_time + 15500000000)
      \<lparr>Name = ''db.aws.example.com.'', Qtype = TypeA\<rparr>
     = Inr [CNAME \<lparr>hdr_Name = ''db.aws.example.com.'', Rrtype = TypeCNAME, Class = ClassINET,
                   Ttl = 10\<rparr> ''db.prod.rds.amazonaws.com.'',
            CNAME \<lparr>hdr_Name = ''db.aws.example.com.'', Rrtype = TypeCNAME, Class = ClassINET,
                   Ttl = 10\<rparr> ''db.main.rds.amazonaws.com.'']
   \<and> Answer example_server (refresh_time + 15500000000)
        \<lparr>Name = ''web.aws.example.com.'', Qtype = TypeA\<rparr>
     = Inr [A \<lparr>hdr_Name = ''web.aws.example.com.'', Rrtype = TypeA, Class = ClassINET,
               Ttl = 44\<rparr> (Some (IPv4 10 0 0 2))]"
proof -
  have q: "Qtype \<lparr>Name = n, Qtype = TypeA\<rparr> = TypeA" for n :: string
    by simp
  from one_answer_per_record [OF q example_lookups(1), of "refresh_time + 15500000000"]
  have a: "Answer example_server (refresh_time + 15500000000)
      \<lparr>Name = ''db.aws.example.com.'', Qtype = TypeA\<rparr>
     = Inr [CNAME \<lparr>hdr_Name = ''db.aws.example.com.'', Rrtype = TypeCNAME, Class = ClassINET,
                   Ttl = 10\<rparr> ''db.prod.rds.amazonaws.com.'',
            CNAME \<lparr>hdr_Name = ''db.aws.example.com.'', Rrtype = TypeCNAME, Class = ClassINET,
                   Ttl = 10\<rparr> ''db.main.rds.amazonaws.com.'']"
    by (simp add: example_ttls) (simp add: rec_db_prod_def rec_db_main_def)
  from one_answer_per_record [OF q example_lookups(4), of "refresh_time + 15500000000"]
  have b: "Answer example_server (refresh_time + 15500000000)
        \<lparr>Name = ''web.aws.example.com.'', Qtype = TypeA\<rparr>
     = Inr [A \<lparr>hdr_Name = ''web.aws.example.com.'', Rrtype = TypeA, Class = ClassINET,
               Ttl = 44\<rparr> (Some (IPv4 10 0 0 2))]"
    by (simp add: example_ttls) (simp add: rec_0b_def)
  from a b show ?thesis
    by simp
qed

text \<open>
  The specification says that a record with neither field set gives no answer. The instance
  \<^verbatim>\<open>i-0c\<close> has no private address, its record has neither field set, and the question
  for it is answered with an A record whose address is nil.
\<close>

theorem record_without_fields_is_answered:
  "Lookup example_server \<lparr>Name = ''i-0c.aws.example.com.'', Qtype = TypeA\<rparr> = Inr [rec_0c]
   \<and> CName rec_0c = '''' \<and> PrivateIP rec_0c = None \<and> PublicIP rec_0c = None
   \<and> Answer example_server (refresh_time + 15500000000)
        \<lparr>Name = ''i-0c.aws.example.com.'', Qtype = TypeA\<rparr>
     = Inr [A \<lparr>hdr_Name = ''i-0c.aws.example.com.'', Rrtype = TypeA, Class = ClassINET,
               Ttl = 44\<rparr> None]"
proof -
  have "Answer example_server (refresh_time + 15500000000)
        \<lparr>Name = ''i-0c.aws.example.com.'', Qtype = TypeA\<rparr>
     = Inr (Answer_loop \<lparr>Name = ''i-0c.aws.example.com.'', Qtype = TypeA\<rparr>
              (refresh_time + 15500000000) [rec_0c] [])"
    using TypeA_neq by (simp add: Answer_def example_lookups)
  also have "\<dots> = Inr [A \<lparr>hdr_Name = ''i-0c.aws.example.com.'', Rrtype = TypeA,
                           Class = ClassINET, Ttl = 44\<rparr> None]"
    by (simp add: record_answers_def example_ttls) (simp add: rec_0c_def)
  finally show ?thesis
    by (simp add: example_lookups) (simp add: rec_0c_def)
qed

text \<open>
  C10. Every record that \<^verbatim>\<open>createDatabaseRecords\<close> makes has \<^verbatim>\<open>ValidUntil\<close> at the zero
  time, which is never assigned, and a \<^verbatim>\<open>CName\<close>. At a query time \<^verbatim>\<open>now\<close> (a reading of
  the clock, which is after the zero time, the first instant of the year 1) its answer
  to a question of type A is one CNAME with the TTL 10. The same holds for every record
  with a \<^verbatim>\<open>CName\<close> in every snapshot that a refresh publishes: these are the records
  of the databases.
\<close>

theorem database_records_get_grace_ttl:
  assumes "createDatabaseRecords lib d dbs k = Some rs"
    and "r \<in> set rs"
    and "0 < now"
    and "Qtype msg = TypeA"
  shows "ValidUntil r = 0
       \<and> answer_ttl r now = 10
       \<and> record_answers msg now r
           = [CNAME \<lparr>hdr_Name = Name msg, Rrtype = TypeCNAME, Class = ClassINET, Ttl = 10\<rparr>
                (CName r)]
       \<and> (\<forall>cache w cache' tag v r'.
             refresh lib cache w = (cache', None) \<and> r' \<in> set (Cache_Lookup cache' tag v)
             \<and> CName r' \<noteq> ''''
             \<longrightarrow> ValidUntil r' = 0
                 \<and> record_answers msg now r'
                     = [CNAME \<lparr>hdr_Name = Name msg, Rrtype = TypeCNAME, Class = ClassINET,
                               Ttl = 10\<rparr> (CName r')])"
proof -
  have grace: "answer_ttl x now = 10
      \<and> record_answers msg now x
          = [CNAME \<lparr>hdr_Name = Name msg, Rrtype = TypeCNAME, Class = ClassINET, Ttl = 10\<rparr>
               (CName x)]"
    if "CName x \<noteq> ''''" and "ValidUntil x = 0" for x
  proof -
    have "After now (ValidUntil x)"
      using that(2) \<open>0 < now\<close> by (simp add: After_def)
    then have "answer_ttl x now = 10"
      by (rule answer_ttl_expired)
    with that(1) assms(4) show ?thesis
      by (simp add: record_answers_def)
  qed
  have created: "CName r \<noteq> '''' \<and> ValidUntil r = 0"
    by (rule every_recordD [OF every_record_database assms(1) assms(2)])
  have snapshot: "ValidUntil r' = 0
      \<and> record_answers msg now r'
          = [CNAME \<lparr>hdr_Name = Name msg, Rrtype = TypeCNAME, Class = ClassINET, Ttl = 10\<rparr>
               (CName r')]"
    if ok: "refresh lib cache w = (cache', None)"
      and mem: "r' \<in> set (Cache_Lookup cache' tag v)"
      and cname: "CName r' \<noteq> ''''"
    for cache w cache' tag v r'
  proof -
    from refresh_succeeded [OF ok] obtain dbs' ress where
      recs: "records cache' = createDatabaseRecords lib (domain cache) dbs'
               ++ createInstanceRecords lib (Now w) (domain cache) ress"
      by auto
    from mem obtain rs' where stored: "records cache' (tag, v) = Some rs'" and in_rs: "r' \<in> set rs'"
      by (cases "records cache' (tag, v)") (simp_all add: Cache_Lookup_def)
    have "createInstanceRecords lib (Now w) (domain cache) ress (tag, v) = None"
    proof (rule ccontr)
      assume "createInstanceRecords lib (Now w) (domain cache) ress (tag, v) \<noteq> None"
      then obtain irs where
        i: "createInstanceRecords lib (Now w) (domain cache) ress (tag, v) = Some irs"
        by auto
      with stored recs have "irs = rs'"
        by simp
      with every_recordD [OF every_record_instances i] in_rs have "CName r' = ''''"
        by blast
      with cname show False
        by simp
    qed
    with stored recs have "createDatabaseRecords lib (domain cache) dbs' (tag, v) = Some rs'"
      by (simp add: map_add_def)
    from every_recordD [OF every_record_database this in_rs]
    have "ValidUntil r' = 0"
      by simp
    with grace [OF cname] show ?thesis
      by simp
  qed
  from created grace have here: "ValidUntil r = 0 \<and> answer_ttl r now = 10
       \<and> record_answers msg now r
           = [CNAME \<lparr>hdr_Name = Name msg, Rrtype = TypeCNAME, Class = ClassINET, Ttl = 10\<rparr>
                (CName r)]"
    by simp
  from snapshot have everywhere: "\<forall>cache w cache' tag v r'.
             refresh lib cache w = (cache', None) \<and> r' \<in> set (Cache_Lookup cache' tag v)
             \<and> CName r' \<noteq> ''''
             \<longrightarrow> ValidUntil r' = 0
                 \<and> record_answers msg now r'
                     = [CNAME \<lparr>hdr_Name = Name msg, Rrtype = TypeCNAME, Class = ClassINET,
                               Ttl = 10\<rparr> (CName r')]"
    by blast
  from here everywhere show ?thesis
    by blast
qed

theorem database_records_get_grace_ttl_witness:
  "ValidUntil rec_db_main = 0
   \<and> record_answers \<lparr>Name = ''db.aws.example.com.'', Qtype = TypeA\<rparr>
        (refresh_time + 15500000000) rec_db_main
     = [CNAME \<lparr>hdr_Name = ''db.aws.example.com.'', Rrtype = TypeCNAME, Class = ClassINET,
               Ttl = 10\<rparr> ''db.main.rds.amazonaws.com.'']"
proof -
  have now: "0 < refresh_time + 15500000000"
    by (simp add: refresh_time_def Second_def)
  have mem: "rec_db_main \<in> set [rec_db_main]"
    by simp
  have q: "Qtype \<lparr>Name = ''db.aws.example.com.'', Qtype = TypeA\<rparr> = TypeA"
    by simp
  from database_records_get_grace_ttl [OF example_db_created mem now q]
  have "ValidUntil rec_db_main = 0
      \<and> record_answers \<lparr>Name = ''db.aws.example.com.'', Qtype = TypeA\<rparr>
          (refresh_time + 15500000000) rec_db_main
        = [CNAME \<lparr>hdr_Name = Name \<lparr>Name = ''db.aws.example.com.'', Qtype = TypeA\<rparr>,
                   Rrtype = TypeCNAME, Class = ClassINET, Ttl = 10\<rparr> (CName rec_db_main)]"
    by blast
  then show ?thesis
    by (simp add: rec_db_main_def)
qed

section \<open>Facts about sanitize\<close>

lemma not_isUpper_asciiLower: "\<not> isUpper (asciiLower c)"
  by (simp add: asciiLower_def isUpper_def)

lemma asciiLower_id: "\<not> isUpper c \<Longrightarrow> asciiLower c = c"
  by (simp add: asciiLower_def)

lemma sane_isASCII: "sane c \<Longrightarrow> isASCII c"
  by (auto simp: sane_def isWord_def isASCII_def Let_def)

lemma hyphen_facts: "sane (CHR ''-'')" "\<not> isUpper (CHR ''-'')"
  by (simp_all add: sane_def isUpper_def)

lemma sane_REPL:
  "list_all sane repl \<Longrightarrow> list_all sane (SANE_DNS_REPL s repl)"
  by (induction s repl rule: SANE_DNS_REPL.induct) simp_all

lemma no_upper_dropWhile:
  "list_all Q cs \<Longrightarrow> list_all Q (dropWhile R cs)"
  by (induction cs) simp_all

lemma no_upper_REPL:
  "list_all Q repl \<Longrightarrow> list_all Q s \<Longrightarrow> list_all Q (SANE_DNS_REPL s repl)"
  by (induction s repl rule: SANE_DNS_REPL.induct) (simp_all add: no_upper_dropWhile)

lemma REPL_id: "list_all sane s \<Longrightarrow> SANE_DNS_REPL s repl = s"
  by (induction s) simp_all

lemma no_upper_ToLower:
  assumes "\<And>s. \<not> list_all isASCII s \<Longrightarrow> list_all (\<lambda>c. \<not> isUpper c) (unicodeLower lib s)"
  shows "list_all (\<lambda>c. \<not> isUpper c) (ToLower lib x)"
proof (cases "list_all isASCII x")
  case True
  then show ?thesis
    by (simp add: ToLower_def list_all_iff not_isUpper_asciiLower)
next
  case False
  with assms [OF False] show ?thesis
    by (simp add: ToLower_def)
qed

lemma sanitize_clean:
  assumes "\<And>s. \<not> list_all isASCII s \<Longrightarrow> list_all (\<lambda>c. \<not> isUpper c) (unicodeLower lib s)"
  shows "list_all sane (sanitize lib x)" and "list_all (\<lambda>c. \<not> isUpper c) (sanitize lib x)"
proof -
  note low = no_upper_ToLower [OF assms, of x]
  show "list_all sane (sanitize lib x)"
    by (simp add: sanitize_def Let_def SANE_DNS_NAME_def sane_REPL hyphen_facts)
  show "list_all (\<lambda>c. \<not> isUpper c) (sanitize lib x)"
    using low by (simp add: sanitize_def Let_def no_upper_REPL hyphen_facts)
qed

lemma sanitize_of_clean:
  assumes "list_all sane y" and "list_all (\<lambda>c. \<not> isUpper c) y"
  shows "sanitize lib y = y"
proof -
  have "list_all isASCII y"
    using assms(1) by (simp add: list_all_iff sane_isASCII)
  moreover have "map asciiLower y = y"
    using assms(2) by (simp add: list_all_iff map_idI asciiLower_id)
  ultimately have "ToLower lib y = y"
    by (simp add: ToLower_def)
  then show ?thesis
    using assms(1) by (simp add: sanitize_def REPL_id)
qed

lemma REPL_run:
  assumes "list_all sane a" and "bad \<noteq> []" and "list_all (\<lambda>c. \<not> sane c) bad"
    and "b = [] \<or> sane (hd b)"
  shows "SANE_DNS_REPL (a @ bad @ b) repl = a @ repl @ SANE_DNS_REPL b repl"
  using assms(1)
proof (induction a)
  case Nil
  from assms(2) obtain c bad' where bad: "bad = c # bad'"
    by (cases bad) auto
  with assms(3) have c: "\<not> sane c" and rest: "\<And>x. x \<in> set bad' \<Longrightarrow> \<not> sane x"
    by (simp_all add: list_all_iff)
  have "dropWhile (\<lambda>d. \<not> sane d) b = b"
    using assms(4) by (cases b) auto
  with rest have "dropWhile (\<lambda>d. \<not> sane d) (bad' @ b) = b"
    by (simp add: dropWhile_append2)
  with c bad show ?case
    by simp
next
  case (Cons x a)
  then show ?case
    by simp
qed

section \<open>The claim about sanitize\<close>

text \<open>
  C8. \<^verbatim>\<open>sanitize\<close> is idempotent: \<^verbatim>\<open>sanitize (sanitize x) = sanitize x\<close> for every string
  \<^verbatim>\<open>x\<close>. Its result has only letters, digits, hyphens and underscores; it is the
  lower-cased input when that matches \<^verbatim>\<open>^[\w-]+$\<close>, and otherwise every longest run of
  other characters has become one hyphen. The assumption is on Go's library: the
  lower-casing of a string that is not ASCII leaves no letter A to Z.
\<close>

theorem sanitize_idempotent:
  assumes "\<And>s. \<not> list_all isASCII s \<Longrightarrow> list_all (\<lambda>c. \<not> isUpper c) (unicodeLower lib s)"
  shows "sanitize lib (sanitize lib x) = sanitize lib x
       \<and> list_all sane (sanitize lib x)
       \<and> (SANE_DNS_NAME (ToLower lib x) \<longrightarrow> sanitize lib x = ToLower lib x)
       \<and> (\<forall>a bad b.
            ToLower lib x = a @ bad @ b \<and> list_all sane a \<and> bad \<noteq> []
            \<and> list_all (\<lambda>c. \<not> sane c) bad \<and> (b = [] \<or> sane (hd b))
            \<longrightarrow> sanitize lib x = a @ ''-'' @ SANE_DNS_REPL b ''-'')"
proof -
  have idem: "sanitize lib (sanitize lib x) = sanitize lib x"
    by (rule sanitize_of_clean [OF sanitize_clean [OF assms, of x]])
  have safe: "list_all sane (sanitize lib x)"
    by (rule sanitize_clean(1) [OF assms])
  have kept: "SANE_DNS_NAME (ToLower lib x) \<longrightarrow> sanitize lib x = ToLower lib x"
    by (simp add: sanitize_def)
  have runs: "\<forall>a bad b.
            ToLower lib x = a @ bad @ b \<and> list_all sane a \<and> bad \<noteq> []
            \<and> list_all (\<lambda>c. \<not> sane c) bad \<and> (b = [] \<or> sane (hd b))
            \<longrightarrow> sanitize lib x = a @ ''-'' @ SANE_DNS_REPL b ''-''"
  proof (intro allI impI)
    fix a bad b
    assume h: "ToLower lib x = a @ bad @ b \<and> list_all sane a \<and> bad \<noteq> []
            \<and> list_all (\<lambda>c. \<not> sane c) bad \<and> (b = [] \<or> sane (hd b))"
    then obtain c where "c \<in> set bad" and "\<not> sane c"
      by (cases bad) auto
    with h have "\<not> SANE_DNS_NAME (ToLower lib x)"
      by (auto simp: SANE_DNS_NAME_def list_all_iff)
    moreover from h have "SANE_DNS_REPL (a @ bad @ b) ''-'' = a @ ''-'' @ SANE_DNS_REPL b ''-''"
      by (intro REPL_run) simp_all
    ultimately show "sanitize lib x = a @ ''-'' @ SANE_DNS_REPL b ''-''"
      using h by (simp add: sanitize_def)
  qed
  show ?thesis
    by (intro conjI) (fact idem safe kept runs)+
qed

theorem sanitize_idempotent_witness:
  "sanitize example_library ''Front End'' = ''front-end''
   \<and> sanitize example_library (sanitize example_library ''Front End'') = ''front-end''"
proof -
  have lower: "list_all (\<lambda>c. \<not> isUpper c) (unicodeLower example_library s)" for s
    by (simp add: example_library_def list_all_iff not_isUpper_asciiLower)
  from sanitize_idempotent [of example_library "''Front End''"] lower
  have "sanitize example_library (sanitize example_library ''Front End'')
      = sanitize example_library ''Front End''"
    by blast
  then show ?thesis
    by (simp add: sanitize_examples(1))
qed

end
